theory Spec2Isabelle
  imports Main
begin

section \<open>ECMAScript day and time arithmetic\<close>

text \<open>
  The date utilities of \<^verbatim>\<open>scripts/test-unit.js\<close> rest on the built-in \<^verbatim>\<open>Date\<close>
  object.  Its time value is an integral number of milliseconds since the epoch (UTC) or
  NaN; the functions below are the abstract operations of ECMA-262, section "Time Values
  and Time Range", on integers.  NaN is \<open>None\<close> one level up.
\<close>

definition msPerDay :: int where
  "msPerDay = 1000 * 60 * 60 * 24"

definition Day :: "int \<Rightarrow> int" where
  "Day t = t div msPerDay"

definition TimeWithinDay :: "int \<Rightarrow> int" where
  "TimeWithinDay t = t mod msPerDay"

definition InLeapYear :: "int \<Rightarrow> int" where
  "InLeapYear y = (if y mod 4 = 0 \<and> (y mod 100 \<noteq> 0 \<or> y mod 400 = 0) then 1 else 0)"

definition DaysInYear :: "int \<Rightarrow> int" where
  "DaysInYear y = 365 + InLeapYear y"

definition DayFromYear :: "int \<Rightarrow> int" where
  "DayFromYear y = 365 * (y - 1970) + (y - 1969) div 4 - (y - 1901) div 100 + (y - 1601) div 400"

text \<open>
  ECMA-262 specifies the year of a day as the largest \<open>y\<close> with \<open>DayFromYear y \<le> n\<close>.
  The executable form estimates it from the mean year length and corrects by one;
  \<open>YearFromDay_bracket\<close> and \<open>YearFromDay_unique\<close> below show it is that year.
\<close>

definition YearFromDay :: "int \<Rightarrow> int" where
  "YearFromDay n =
     (let y = 1970 + (400 * n) div 146097 in
      if n < DayFromYear y then y - 1
      else if DayFromYear (y + 1) \<le> n then y + 1
      else y)"

definition DayWithinYear :: "int \<Rightarrow> int" where
  "DayWithinYear n = n - DayFromYear (YearFromDay n)"

text \<open>The first day within the year of month \<open>m\<close> (0 = January), \<open>l\<close> the leap flag.\<close>

definition DayFromMonth :: "int \<Rightarrow> int \<Rightarrow> int" where
  "DayFromMonth m l =
     (if m = 0 then 0 else if m = 1 then 31 else if m = 2 then 59 + l
      else if m = 3 then 90 + l else if m = 4 then 120 + l else if m = 5 then 151 + l
      else if m = 6 then 181 + l else if m = 7 then 212 + l else if m = 8 then 243 + l
      else if m = 9 then 273 + l else if m = 10 then 304 + l else 334 + l)"

definition DaysInMonth :: "int \<Rightarrow> int \<Rightarrow> int" where
  "DaysInMonth m l =
     (if m = 1 then 28 + l else if m = 3 \<or> m = 5 \<or> m = 8 \<or> m = 10 then 30 else 31)"

definition MonthFromDay :: "int \<Rightarrow> int" where
  "MonthFromDay n =
     (let d = DayWithinYear n; l = InLeapYear (YearFromDay n) in
      if d < 31 then 0 else if d < 59 + l then 1 else if d < 90 + l then 2
      else if d < 120 + l then 3 else if d < 151 + l then 4 else if d < 181 + l then 5
      else if d < 212 + l then 6 else if d < 243 + l then 7 else if d < 273 + l then 8
      else if d < 304 + l then 9 else if d < 334 + l then 10 else 11)"

definition DateFromDay :: "int \<Rightarrow> int" where
  "DateFromDay n =
     DayWithinYear n - DayFromMonth (MonthFromDay n) (InLeapYear (YearFromDay n)) + 1"

text \<open>
  \<open>MakeDay\<close> normalises an out-of-range month into the year and lets the date run over
  the month's ends: this is what makes \<^verbatim>\<open>setDate(getDate() - bufferDays)\<close> a calendar
  subtraction.
\<close>

definition MakeDay :: "int \<Rightarrow> int \<Rightarrow> int \<Rightarrow> int" where
  "MakeDay year month date =
     (let ym = year + month div 12; mn = month mod 12
      in DayFromYear ym + DayFromMonth mn (InLeapYear ym) + date - 1)"

definition TimeClip :: "int \<Rightarrow> int option" where
  "TimeClip t = (if \<bar>t\<bar> > 8640000000000000 then None else Some t)"

section \<open>The host: time zone, clock, numeric coercion\<close>

text \<open>
  \<^verbatim>\<open>new Date(y, m, d)\<close>, \<^verbatim>\<open>getFullYear()\<close>, \<^verbatim>\<open>getDate()\<close> and \<^verbatim>\<open>setDate()\<close> work in the
  host's local time.  \<open>LocalTZA h t isUTC\<close> is the offset of local time from UTC in
  milliseconds, at the UTC instant \<open>t\<close> when \<open>isUTC\<close> and for the local time \<open>t\<close>
  otherwise (ECMA-262, LocalTZA).  \<open>clock h\<close> is what \<^verbatim>\<open>new Date()\<close> reads.

  \<^verbatim>\<open>Number\<close> is modelled on strings of ASCII decimal digits, which is what the leading
  ten characters of an ISO-8601 timestamp split into.  On any other string (blanks, a
  sign, a fraction, an exponent, a radix prefix) the host's full string-to-number
  grammar applies; the time value of the date built from such parts is taken from the
  host as \<open>exoticDate h\<close>, with nothing assumed about it.
\<close>

record host =
  LocalTZA :: "int \<Rightarrow> bool \<Rightarrow> int"
  clock :: int
  exoticDate :: "string \<Rightarrow> string \<Rightarrow> string \<Rightarrow> int option"

definition LocalTime :: "host \<Rightarrow> int \<Rightarrow> int" where
  "LocalTime h t = t + LocalTZA h t True"

definition UTC :: "host \<Rightarrow> int \<Rightarrow> int" where
  "UTC h t = t - LocalTZA h t False"

section \<open>Strings and numbers\<close>

definition isDigit :: "char \<Rightarrow> bool" where
  "isDigit c = (c \<in> set ''0123456789'')"

text \<open>The value of a decimal digit (its character code less that of \<^verbatim>\<open>0\<close>) and the
  digit of a value from 0 to 9.\<close>

definition digitVal :: "char \<Rightarrow> int" where
  "digitVal c = int (of_char c) - 48"

definition digitChar :: "int \<Rightarrow> char" where
  "digitChar k = ''0123456789'' ! nat k"

text \<open>\<^verbatim>\<open>Number(s)\<close> for a string of decimal digits; the empty string is 0.\<close>

definition Number_digits :: "string \<Rightarrow> int" where
  "Number_digits s = foldl (\<lambda>a c. 10 * a + digitVal c) 0 s"

text \<open>\<^verbatim>\<open>String(n)\<close> for an integer (below the 1e21 where JavaScript turns to exponents).\<close>

fun String_nat :: "nat \<Rightarrow> string" where
  "String_nat n =
     (if n < 10 then [digitChar (int n)]
      else String_nat (n div 10) @ [digitChar (int (n mod 10))])"

declare String_nat.simps [simp del]

definition String_int :: "int \<Rightarrow> string" where
  "String_int i = (if i < 0 then CHR ''-'' # String_nat (nat (- i)) else String_nat (nat i))"

text \<open>A JavaScript number that is an integer or NaN, as a template literal prints it.\<close>

definition String_num :: "int option \<Rightarrow> string" where
  "String_num x = (case x of None \<Rightarrow> ''NaN'' | Some i \<Rightarrow> String_int i)"

text \<open>\<^verbatim>\<open>s.padStart(2, "0")\<close>.\<close>

definition padStart2 :: "string \<Rightarrow> string" where
  "padStart2 s = replicate (2 - length s) CHR ''0'' @ s"

text \<open>\<^verbatim>\<open>s.split("-")\<close>: the pieces between the dashes, at least one piece.\<close>

fun split_dash :: "string \<Rightarrow> string list" where
  "split_dash [] = [[]]"
| "split_dash (c # cs) =
     (if c = CHR ''-'' then [] # split_dash cs
      else (case split_dash cs of p # ps \<Rightarrow> (c # p) # ps | [] \<Rightarrow> [[c]]))"

section \<open>The Date object\<close>

type_synonym jsdate = "int option"

text \<open>
  \<^verbatim>\<open>new Date(year, monthIndex, day)\<close> on integers: a year from 0 to 99 means 1900 + year,
  the fields are read as local time, and the result is clipped to the time range.
\<close>

definition newDate :: "host \<Rightarrow> int \<Rightarrow> int \<Rightarrow> int \<Rightarrow> jsdate" where
  "newDate h year monthIndex day =
     (let yr = (if 0 \<le> year \<and> year \<le> 99 then 1900 + year else year);
          finalDate = MakeDay yr monthIndex day * msPerDay
      in TimeClip (UTC h finalDate))"

definition getTime :: "jsdate \<Rightarrow> int option" where
  "getTime date = date"

definition getFullYear :: "host \<Rightarrow> jsdate \<Rightarrow> int option" where
  "getFullYear h date = map_option (\<lambda>t. YearFromDay (Day (LocalTime h t))) date"

definition getMonth :: "host \<Rightarrow> jsdate \<Rightarrow> int option" where
  "getMonth h date = map_option (\<lambda>t. MonthFromDay (Day (LocalTime h t))) date"

definition getDate :: "host \<Rightarrow> jsdate \<Rightarrow> int option" where
  "getDate h date = map_option (\<lambda>t. DateFromDay (Day (LocalTime h t))) date"

text \<open>\<^verbatim>\<open>date.setDate(dt)\<close>, returning the updated object; \<open>dt\<close> may be NaN.\<close>

definition setDate :: "host \<Rightarrow> jsdate \<Rightarrow> int option \<Rightarrow> jsdate" where
  "setDate h date dt =
     (case date of
        None \<Rightarrow> None
      | Some tv \<Rightarrow>
          (case dt of
             None \<Rightarrow> None
           | Some d \<Rightarrow>
               (let t = LocalTime h tv;
                    newDate = MakeDay (YearFromDay (Day t)) (MonthFromDay (Day t)) d * msPerDay
                              + TimeWithinDay t
                in TimeClip (UTC h newDate))))"

section \<open>Date utilities of the repository\<close>

text \<open>
  \<^verbatim>\<open>function formatDateLocal(date) {
    const y = date.getFullYear();
    const m = String(date.getMonth() + 1).padStart(2, "0");
    const d = String(date.getDate()).padStart(2, "0");
    return `${y}-${m}-${d}`; }\<close>
\<close>

definition formatDateLocal :: "host \<Rightarrow> jsdate \<Rightarrow> string" where
  "formatDateLocal h date =
     (let y = getFullYear h date;
          m = padStart2 (String_num (map_option (\<lambda>k. k + 1) (getMonth h date)));
          d = padStart2 (String_num (getDate h date))
      in String_num y @ ''-'' @ m @ ''-'' @ d)"

text \<open>
  \<^verbatim>\<open>function parseDateOnly(isoString) {
    const datePart = isoString.slice(0, 10);
    const [year, month, day] = datePart.split("-").map(Number);
    return new Date(year, month - 1, day); }\<close>
  With fewer than three pieces \<^verbatim>\<open>month\<close> or \<^verbatim>\<open>day\<close> is undefined and the date invalid.
\<close>

definition parseDateOnly :: "host \<Rightarrow> string \<Rightarrow> jsdate" where
  "parseDateOnly h isoString =
     (let datePart = take 10 isoString in
      case split_dash datePart of
        year # month # day # _ \<Rightarrow>
          if list_all isDigit year \<and> list_all isDigit month \<and> list_all isDigit day
          then newDate h (Number_digits year) (Number_digits month - 1) (Number_digits day)
          else exoticDate h year month day
      | _ \<Rightarrow> None)"

text \<open>
  \<^verbatim>\<open>function daysBetween(from, to) {
    const msPerDay = 1000 * 60 * 60 * 24;
    return Math.floor((to.getTime() - from.getTime()) / msPerDay); }\<close>
  The quotient of two time values is far below the size where a double would round it
  across an integer, so the floor is the integer quotient; NaN propagates.
\<close>

definition daysBetween :: "jsdate \<Rightarrow> jsdate \<Rightarrow> int option" where
  "daysBetween from to =
     (case (getTime to, getTime from) of
        (Some b, Some a) \<Rightarrow> Some ((b - a) div msPerDay)
      | _ \<Rightarrow> None)"

section \<open>The reschedule engine\<close>

record todo =
  todo_id :: string
  todo_name :: string
  status :: string
  dueDate :: "string option"
  activationDate :: "string option"

record decision =
  dec_id :: string
  dec_name :: string
  oldWhen :: "string option"
  newWhen :: string
  dec_dueDate :: string
  daysUntilDue :: "int option"

record reschedule_options =
  opt_daysThreshold :: "int option"
  opt_bufferDays :: "int option"
  opt_now :: "jsdate option"

record reschedule_result =
  rescheduled :: "decision list"
  skippedSummary :: "(string \<times> nat) list"
  totalToday :: nat

datatype outcome = Skipped string | Rescheduled decision

text \<open>
  \<^verbatim>\<open>skippedSummary[reason] = (skippedSummary[reason] ?? 0) + 1\<close> on an object whose keys
  keep their insertion order.
\<close>

fun skipWith :: "string \<Rightarrow> (string \<times> nat) list \<Rightarrow> (string \<times> nat) list" where
  "skipWith reason [] = [(reason, 1)]"
| "skipWith reason ((k, c) # rest) =
     (if k = reason then (k, c + 1) # rest else (k, c) # skipWith reason rest)"

text \<open>A string field is truthy when it is present (not null) and not empty.\<close>

definition truthy :: "string option \<Rightarrow> bool" where
  "truthy s = (case s of None \<Rightarrow> False | Some x \<Rightarrow> x \<noteq> [])"

text \<open>\<^verbatim>\<open>a < b\<close> and \<^verbatim>\<open>a <= b\<close> on numbers: false as soon as one side is NaN.\<close>

definition js_less :: "int option \<Rightarrow> int option \<Rightarrow> bool" where
  "js_less a b = (case (a, b) of (Some x, Some y) \<Rightarrow> x < y | _ \<Rightarrow> False)"

definition js_le :: "int option \<Rightarrow> int option \<Rightarrow> bool" where
  "js_le a b = (case (a, b) of (Some x, Some y) \<Rightarrow> x \<le> y | _ \<Rightarrow> False)"

definition threshold_label :: "int \<Rightarrow> string" where
  "threshold_label daysThreshold =
     ''deadline within threshold (< '' @ String_int daysThreshold @ '' days)''"

text \<open>
  \<^verbatim>\<open>const newWhenDate = new Date(deadlineDate);
  newWhenDate.setDate(newWhenDate.getDate() - bufferDays);\<close>
  Copying a Date keeps its time value.
\<close>

definition newWhenDate :: "host \<Rightarrow> jsdate \<Rightarrow> int \<Rightarrow> jsdate" where
  "newWhenDate h deadlineDate bufferDays =
     setDate h deadlineDate (map_option (\<lambda>d. d - bufferDays) (getDate h deadlineDate))"

text \<open>
  The body of the loop of \<^verbatim>\<open>simulateRescheduleLogic\<close> for one to-do: each
  \<^verbatim>\<open>skipWith(...); continue;\<close> is a \<open>Skipped\<close> outcome, the \<^verbatim>\<open>rescheduled.push\<close> at the end
  a \<open>Rescheduled\<close> one.
\<close>

definition classify ::
  "host \<Rightarrow> int \<Rightarrow> int \<Rightarrow> jsdate \<Rightarrow> string \<Rightarrow> todo \<Rightarrow> outcome" where
  "classify h daysThreshold bufferDays todayMidnight todayStr t =
     (if status t \<noteq> ''open'' then Skipped ''status is not open''
      else if \<not> truthy (dueDate t) then Skipped ''no deadline set''
      else if truthy (activationDate t)
              \<and> formatDateLocal h (parseDateOnly h (the (activationDate t))) = todayStr
      then Skipped ''explicitly scheduled for today (activationDate = today)''
      else
        let deadlineDate = parseDateOnly h (the (dueDate t));
            days = daysBetween todayMidnight deadlineDate
        in if js_less days (Some daysThreshold) then Skipped (threshold_label daysThreshold)
           else
             let nw = newWhenDate h deadlineDate bufferDays
             in if js_le (getTime nw) (getTime todayMidnight)
                then Skipped ''computed new date would not move to-do out of Today''
                else Rescheduled
                  \<lparr> dec_id = todo_id t,
                    dec_name = todo_name t,
                    oldWhen =
                      (if truthy (activationDate t)
                       then Some (formatDateLocal h (parseDateOnly h (the (activationDate t))))
                       else None),
                    newWhen = formatDateLocal h nw,
                    dec_dueDate = take 10 (the (dueDate t)),
                    daysUntilDue = days \<rparr>)"

text \<open>The effect of one outcome on the two accumulators of the loop.\<close>

fun record_outcome ::
  "decision list \<times> (string \<times> nat) list \<Rightarrow> outcome \<Rightarrow> decision list \<times> (string \<times> nat) list" where
  "record_outcome (rs, sm) (Skipped reason) = (rs, skipWith reason sm)"
| "record_outcome (rs, sm) (Rescheduled d) = (rs @ [d], sm)"

definition todayMidnight_of :: "host \<Rightarrow> jsdate \<Rightarrow> jsdate" where
  "todayMidnight_of h now =
     (case (getFullYear h now, getMonth h now, getDate h now) of
        (Some y, Some m, Some d) \<Rightarrow> newDate h y m d
      | _ \<Rightarrow> None)"

definition simulateRescheduleLogic ::
  "host \<Rightarrow> todo list \<Rightarrow> reschedule_options \<Rightarrow> reschedule_result" where
  "simulateRescheduleLogic h todos options =
     (let daysThreshold = (case opt_daysThreshold options of None \<Rightarrow> 7 | Some v \<Rightarrow> v);
          bufferDays = (case opt_bufferDays options of None \<Rightarrow> 3 | Some v \<Rightarrow> v);
          now = (case opt_now options of None \<Rightarrow> Some (clock h) | Some d \<Rightarrow> d);
          todayMidnight = todayMidnight_of h now;
          todayStr = formatDateLocal h todayMidnight;
          (rs, sm) = foldl (\<lambda>acc t.
              record_outcome acc (classify h daysThreshold bufferDays todayMidnight todayStr t))
            ([], []) todos
      in \<lparr> rescheduled = rs, skippedSummary = sm, totalToday = length todos \<rparr>)"

section \<open>Calendar days as the specification speaks of them\<close>

text \<open>
  A calendar day is (year, month, day) with the month counted from 1.  \<open>civil_day\<close> is
  its day number since the epoch, \<open>day_string\<close> renders the day with number \<open>n\<close> the way
  \<open>formatDateLocal\<close> does (year as it is, month and day on two digits), and \<open>iso_ymd\<close> is
  the zero-padded \<^verbatim>\<open>YYYY-MM-DD\<close> text of a timestamp.
\<close>

definition valid_ymd :: "int \<Rightarrow> int \<Rightarrow> int \<Rightarrow> bool" where
  "valid_ymd y m d =
     (1 \<le> m \<and> m \<le> 12 \<and> 1 \<le> d \<and> d \<le> DaysInMonth (m - 1) (InLeapYear y))"

definition civil_day :: "int \<Rightarrow> int \<Rightarrow> int \<Rightarrow> int" where
  "civil_day y m d = MakeDay y (m - 1) d"

definition pad2 :: "int \<Rightarrow> string" where
  "pad2 k = [digitChar (k div 10), digitChar (k mod 10)]"

definition pad4 :: "int \<Rightarrow> string" where
  "pad4 y = pad2 (y div 100) @ pad2 (y mod 100)"

definition iso_ymd :: "int \<Rightarrow> int \<Rightarrow> int \<Rightarrow> string" where
  "iso_ymd y m d = pad4 y @ ''-'' @ pad2 m @ ''-'' @ pad2 d"

definition day_string :: "int \<Rightarrow> string" where
  "day_string n =
     String_int (YearFromDay n) @ ''-'' @ pad2 (MonthFromDay n + 1) @ ''-'' @ pad2 (DateFromDay n)"

text \<open>The local midnight that begins calendar day \<open>n\<close>, as a Date.\<close>

definition midnight :: "host \<Rightarrow> int \<Rightarrow> jsdate" where
  "midnight h n = Some (UTC h (n * msPerDay))"

text \<open>
  A host is regular when every local midnight exists (converting it to UTC and back
  gives the same local time), local midnights follow each other in time, and the offset
  stays within a day.  Zones with a fixed offset are regular, and so are zones whose
  daylight-saving switches happen away from midnight.
\<close>

definition regular_host :: "host \<Rightarrow> bool" where
  "regular_host h =
     ((\<forall>n. LocalTime h (UTC h (n * msPerDay)) = n * msPerDay)
      \<and> (\<forall>n n'. n < n' \<longrightarrow> UTC h (n * msPerDay) < UTC h (n' * msPerDay))
      \<and> (\<forall>t. \<bar>LocalTZA h t False\<bar> \<le> msPerDay))"


text \<open>Hosts to evaluate on: a fixed offset, and the United States' Eastern zone in 2026
  (daylight saving from 8 March 02:00 to 1 November 02:00 local time).\<close>

definition fixed_host :: "int \<Rightarrow> host" where
  "fixed_host off = \<lparr> LocalTZA = (\<lambda>t isUTC. off), clock = 0, exoticDate = (\<lambda>y m d. None) \<rparr>"

definition utc_host :: host where
  "utc_host = fixed_host 0"

definition kst_host :: host where
  "kst_host = fixed_host (9 * 3600000)"

definition us_eastern_2026 :: host where
  "us_eastern_2026 =
     \<lparr> LocalTZA = (\<lambda>t isUTC.
         if isUTC
         then (if 1772953200000 \<le> t \<and> t < 1793512800000 then - 14400000 else - 18000000)
         else (if 1772938800000 \<le> t \<and> t < 1793498400000 then - 14400000 else - 18000000)),
       clock = 0,
       exoticDate = (\<lambda>y m d. None) \<rparr>"

section \<open>The Things URL builder\<close>

text \<open>
  Strings are sequences of UTF-8 bytes.  \<^verbatim>\<open>encodeURIComponent\<close> keeps the unreserved
  ASCII characters and writes every other byte as a percent sign and two upper-case
  hexadecimal digits.
\<close>

datatype pvalue = Str string | Flag bool | Undefined

definition THINGS_SCHEME :: string where
  "THINGS_SCHEME = ''things:///''"

definition unreserved :: "char \<Rightarrow> bool" where
  "unreserved c =
     (c \<in> set ''ABCDEFGHIJKLMNOPQRSTUVWXYZabcdefghijklmnopqrstuvwxyz0123456789-_.!~*()''
      \<or> c = CHR 0x27)"

definition hexChar :: "nat \<Rightarrow> char" where
  "hexChar k = ''0123456789ABCDEF'' ! (k mod 16)"

definition encodeParam :: "string \<Rightarrow> string" where
  "encodeParam v =
     concat (map (\<lambda>c. if unreserved c then [c]
                       else [CHR ''%'', hexChar (of_char c div 16), hexChar (of_char c mod 16)]) v)"

fun join_amp :: "string list \<Rightarrow> string" where
  "join_amp [] = []"
| "join_amp [x] = x"
| "join_amp (x # y # ys) = x @ ''&'' @ join_amp (y # ys)"

definition keep_param :: "string \<times> pvalue \<Rightarrow> bool" where
  "keep_param kv = (snd kv \<noteq> Undefined \<and> snd kv \<noteq> Str [])"

definition value_text :: "pvalue \<Rightarrow> string" where
  "value_text v =
     (case v of
        Flag b \<Rightarrow> (if b then ''true'' else ''false'')
      | Str s \<Rightarrow> encodeParam s
      | Undefined \<Rightarrow> ''undefined'')"

definition serialize_param :: "string \<times> pvalue \<Rightarrow> string" where
  "serialize_param kv = fst kv @ ''='' @ value_text (snd kv)"

text \<open>
  \<^verbatim>\<open>function buildURL(command, params) {
    const filteredParams = Object.entries(params).filter(
      ([, v]) => v !== undefined && v !== "");
    if (filteredParams.length === 0) return `${THINGS_SCHEME}${command}`;
    const queryString = filteredParams.map(...).join("&");
    return `${THINGS_SCHEME}${command}?${queryString}`; }\<close>
  \<open>params\<close> is the list \<^verbatim>\<open>Object.entries\<close> yields, in insertion order.
\<close>

definition buildURL :: "string \<Rightarrow> (string \<times> pvalue) list \<Rightarrow> string" where
  "buildURL command params =
     (let filteredParams = filter keep_param params in
      if length filteredParams = 0 then THINGS_SCHEME @ command
      else THINGS_SCHEME @ command @ ''?'' @ join_amp (map serialize_param filteredParams))"

text \<open>The three shapes of assignment the builders use:
  \<^verbatim>\<open>if (params.x) urlParams.x = params.x\<close>,
  \<^verbatim>\<open>if (params.x !== undefined) urlParams.x = params.x\<close> for strings and for booleans.\<close>

definition if_truthy :: "string \<Rightarrow> string option \<Rightarrow> (string \<times> pvalue) list" where
  "if_truthy key v = (if truthy v then [(key, Str (the v))] else [])"

definition if_defined :: "string \<Rightarrow> string option \<Rightarrow> (string \<times> pvalue) list" where
  "if_defined key v = (case v of None \<Rightarrow> [] | Some s \<Rightarrow> [(key, Str s)])"

definition if_flag :: "string \<Rightarrow> bool option \<Rightarrow> (string \<times> pvalue) list" where
  "if_flag key v = (case v of None \<Rightarrow> [] | Some b \<Rightarrow> [(key, Flag b)])"

text \<open>\<^verbatim>\<open>s.replace(/\n/g, "\n")\<close>: every line feed is replaced by a line feed.\<close>

definition replace_newlines :: "string \<Rightarrow> string" where
  "replace_newlines s = concat (map (\<lambda>c. if c = CHR 0x0A then [CHR 0x0A] else [c]) s)"

definition if_truthy_lines :: "string \<Rightarrow> string option \<Rightarrow> (string \<times> pvalue) list" where
  "if_truthy_lines key v = (if truthy v then [(key, Str (replace_newlines (the v)))] else [])"

record AddTodoParams =
  at_title :: "string option"
  at_titles :: "string option"
  at_notes :: "string option"
  at_when :: "string option"
  at_deadline :: "string option"
  at_tags :: "string option"
  at_checklist_items :: "string option"
  at_list_id :: "string option"
  at_list :: "string option"
  at_heading_id :: "string option"
  at_heading :: "string option"
  at_completed :: "bool option"
  at_canceled :: "bool option"
  at_show_quick_entry :: "bool option"
  at_reveal :: "bool option"
  at_creation_date :: "string option"
  at_completion_date :: "string option"

definition buildAddTodoURL :: "AddTodoParams \<Rightarrow> string" where
  "buildAddTodoURL params =
     buildURL ''add''
       ((if truthy (at_titles params)
         then [(''titles'', Str (replace_newlines (the (at_titles params))))]
         else if truthy (at_title params) then [(''title'', Str (the (at_title params)))]
         else [])
        @ if_truthy ''notes'' (at_notes params)
        @ if_truthy ''when'' (at_when params)
        @ if_truthy ''deadline'' (at_deadline params)
        @ if_truthy ''tags'' (at_tags params)
        @ if_truthy_lines ''checklist-items'' (at_checklist_items params)
        @ if_truthy ''list-id'' (at_list_id params)
        @ if_truthy ''list'' (at_list params)
        @ if_truthy ''heading-id'' (at_heading_id params)
        @ if_truthy ''heading'' (at_heading params)
        @ if_flag ''completed'' (at_completed params)
        @ if_flag ''canceled'' (at_canceled params)
        @ if_flag ''show-quick-entry'' (at_show_quick_entry params)
        @ if_flag ''reveal'' (at_reveal params)
        @ if_truthy ''creation-date'' (at_creation_date params)
        @ if_truthy ''completion-date'' (at_completion_date params))"

record AddProjectParams =
  ap_title :: "string option"
  ap_notes :: "string option"
  ap_when :: "string option"
  ap_deadline :: "string option"
  ap_tags :: "string option"
  ap_area_id :: "string option"
  ap_area :: "string option"
  ap_to_dos :: "string option"
  ap_completed :: "bool option"
  ap_canceled :: "bool option"
  ap_reveal :: "bool option"
  ap_creation_date :: "string option"
  ap_completion_date :: "string option"

definition buildAddProjectURL :: "AddProjectParams \<Rightarrow> string" where
  "buildAddProjectURL params =
     buildURL ''add-project''
       (if_truthy ''title'' (ap_title params)
        @ if_truthy ''notes'' (ap_notes params)
        @ if_truthy ''when'' (ap_when params)
        @ if_truthy ''deadline'' (ap_deadline params)
        @ if_truthy ''tags'' (ap_tags params)
        @ if_truthy ''area-id'' (ap_area_id params)
        @ if_truthy ''area'' (ap_area params)
        @ if_truthy_lines ''to-dos'' (ap_to_dos params)
        @ if_flag ''completed'' (ap_completed params)
        @ if_flag ''canceled'' (ap_canceled params)
        @ if_flag ''reveal'' (ap_reveal params)
        @ if_truthy ''creation-date'' (ap_creation_date params)
        @ if_truthy ''completion-date'' (ap_completion_date params))"

record UpdateTodoParams =
  ut_auth_token :: string
  ut_id :: string
  ut_title :: "string option"
  ut_notes :: "string option"
  ut_prepend_notes :: "string option"
  ut_append_notes :: "string option"
  ut_when :: "string option"
  ut_deadline :: "string option"
  ut_tags :: "string option"
  ut_add_tags :: "string option"
  ut_checklist_items :: "string option"
  ut_prepend_checklist_items :: "string option"
  ut_append_checklist_items :: "string option"
  ut_list_id :: "string option"
  ut_list :: "string option"
  ut_heading_id :: "string option"
  ut_heading :: "string option"
  ut_completed :: "bool option"
  ut_canceled :: "bool option"
  ut_reveal :: "bool option"
  ut_duplicate :: "bool option"
  ut_creation_date :: "string option"
  ut_completion_date :: "string option"

definition buildUpdateTodoURL :: "UpdateTodoParams \<Rightarrow> string" where
  "buildUpdateTodoURL params =
     buildURL ''update''
       ([(''auth-token'', Str (ut_auth_token params)), (''id'', Str (ut_id params))]
        @ if_defined ''title'' (ut_title params)
        @ if_defined ''notes'' (ut_notes params)
        @ if_truthy ''prepend-notes'' (ut_prepend_notes params)
        @ if_truthy ''append-notes'' (ut_append_notes params)
        @ if_defined ''when'' (ut_when params)
        @ if_defined ''deadline'' (ut_deadline params)
        @ if_defined ''tags'' (ut_tags params)
        @ if_truthy ''add-tags'' (ut_add_tags params)
        @ if_truthy_lines ''checklist-items'' (ut_checklist_items params)
        @ if_truthy_lines ''prepend-checklist-items'' (ut_prepend_checklist_items params)
        @ if_truthy_lines ''append-checklist-items'' (ut_append_checklist_items params)
        @ if_truthy ''list-id'' (ut_list_id params)
        @ if_truthy ''list'' (ut_list params)
        @ if_truthy ''heading-id'' (ut_heading_id params)
        @ if_truthy ''heading'' (ut_heading params)
        @ if_flag ''completed'' (ut_completed params)
        @ if_flag ''canceled'' (ut_canceled params)
        @ if_flag ''reveal'' (ut_reveal params)
        @ if_flag ''duplicate'' (ut_duplicate params)
        @ if_truthy ''creation-date'' (ut_creation_date params)
        @ if_truthy ''completion-date'' (ut_completion_date params))"

record UpdateProjectParams =
  up_auth_token :: string
  up_id :: string
  up_title :: "string option"
  up_notes :: "string option"
  up_prepend_notes :: "string option"
  up_append_notes :: "string option"
  up_when :: "string option"
  up_deadline :: "string option"
  up_tags :: "string option"
  up_add_tags :: "string option"
  up_area_id :: "string option"
  up_area :: "string option"
  up_completed :: "bool option"
  up_canceled :: "bool option"
  up_reveal :: "bool option"
  up_duplicate :: "bool option"
  up_creation_date :: "string option"
  up_completion_date :: "string option"

definition buildUpdateProjectURL :: "UpdateProjectParams \<Rightarrow> string" where
  "buildUpdateProjectURL params =
     buildURL ''update-project''
       ([(''auth-token'', Str (up_auth_token params)), (''id'', Str (up_id params))]
        @ if_defined ''title'' (up_title params)
        @ if_defined ''notes'' (up_notes params)
        @ if_truthy ''prepend-notes'' (up_prepend_notes params)
        @ if_truthy ''append-notes'' (up_append_notes params)
        @ if_defined ''when'' (up_when params)
        @ if_defined ''deadline'' (up_deadline params)
        @ if_defined ''tags'' (up_tags params)
        @ if_truthy ''add-tags'' (up_add_tags params)
        @ if_truthy ''area-id'' (up_area_id params)
        @ if_truthy ''area'' (up_area params)
        @ if_flag ''completed'' (up_completed params)
        @ if_flag ''canceled'' (up_canceled params)
        @ if_flag ''reveal'' (up_reveal params)
        @ if_flag ''duplicate'' (up_duplicate params)
        @ if_truthy ''creation-date'' (up_creation_date params)
        @ if_truthy ''completion-date'' (up_completion_date params))"

record ShowParams =
  sh_id :: "string option"
  sh_query :: "string option"
  sh_filter :: "string option"

definition buildShowURL :: "ShowParams \<Rightarrow> string" where
  "buildShowURL params =
     buildURL ''show''
       (if_truthy ''id'' (sh_id params)
        @ if_truthy ''query'' (sh_query params)
        @ if_truthy ''filter'' (sh_filter params))"

record SearchParams =
  se_query :: "string option"

definition buildSearchURL :: "SearchParams \<Rightarrow> string" where
  "buildSearchURL params = buildURL ''search'' (if_truthy ''query'' (se_query params))"

definition buildVersionURL :: string where
  "buildVersionURL = buildURL ''version'' []"

text \<open>\<open>js_data\<close> is the text \<^verbatim>\<open>JSON.stringify(params.data)\<close> returns.\<close>

record JsonParams =
  js_data :: string
  js_auth_token :: "string option"
  js_reveal :: "bool option"

definition buildJsonURL :: "JsonParams \<Rightarrow> string" where
  "buildJsonURL params =
     buildURL ''json''
       ([(''data'', Str (js_data params))]
        @ if_truthy ''auth-token'' (js_auth_token params)
        @ if_flag ''reveal'' (js_reveal params))"

text \<open>An empty string passed for an optional field, read as the field left out.\<close>

definition nonempty :: "string option \<Rightarrow> string option" where
  "nonempty v = (if v = Some [] then None else v)"

text \<open>The outcomes of a run, split into the decisions pushed and the reasons counted.\<close>

fun decisions_of :: "outcome list \<Rightarrow> decision list" where
  "decisions_of [] = []"
| "decisions_of (Rescheduled d # os) = d # decisions_of os"
| "decisions_of (Skipped r # os) = decisions_of os"

fun skips_of :: "outcome list \<Rightarrow> string list" where
  "skips_of [] = []"
| "skips_of (Rescheduled d # os) = skips_of os"
| "skips_of (Skipped r # os) = r # skips_of os"

text \<open>\<^verbatim>\<open>skippedSummary[label]\<close>, with 0 for a label that has no entry.\<close>

definition count_of :: "string \<Rightarrow> (string \<times> nat) list \<Rightarrow> nat" where
  "count_of label sm = (case map_of sm label of None \<Rightarrow> 0 | Some c \<Rightarrow> c)"

text \<open>The outcome of the loop body for one to-do under the options of a run.\<close>

definition loop_outcome :: "host \<Rightarrow> reschedule_options \<Rightarrow> todo \<Rightarrow> outcome" where
  "loop_outcome h options t =
     (let daysThreshold = (case opt_daysThreshold options of None \<Rightarrow> 7 | Some v \<Rightarrow> v);
          bufferDays = (case opt_bufferDays options of None \<Rightarrow> 3 | Some v \<Rightarrow> v);
          now = (case opt_now options of None \<Rightarrow> Some (clock h) | Some d \<Rightarrow> d);
          todayMidnight = todayMidnight_of h now;
          todayStr = formatDateLocal h todayMidnight
      in classify h daysThreshold bufferDays todayMidnight todayStr t)"

text \<open>Names for what the loop body computes and tests, to state its properties with.\<close>

definition protected_today :: "host \<Rightarrow> string \<Rightarrow> todo \<Rightarrow> bool" where
  "protected_today h todayStr t =
     (truthy (activationDate t)
      \<and> formatDateLocal h (parseDateOnly h (the (activationDate t))) = todayStr)"

definition deadline_of :: "host \<Rightarrow> todo \<Rightarrow> jsdate" where
  "deadline_of h t = parseDateOnly h (the (dueDate t))"

definition days_until :: "host \<Rightarrow> jsdate \<Rightarrow> todo \<Rightarrow> int option" where
  "days_until h todayMidnight t = daysBetween todayMidnight (deadline_of h t)"

definition target_of :: "host \<Rightarrow> int \<Rightarrow> todo \<Rightarrow> jsdate" where
  "target_of h bufferDays t = newWhenDate h (deadline_of h t) bufferDays"

text \<open>The (key, text) pairs that \<open>buildURL\<close> writes into the query string.\<close>

definition url_pairs :: "(string \<times> pvalue) list \<Rightarrow> (string \<times> string) list" where
  "url_pairs params = map (\<lambda>kv. (fst kv, value_text (snd kv))) (filter keep_param params)"

text \<open>The parameters of each builder with every empty optional string read as left out.\<close>

definition omit_empty_add_todo :: "AddTodoParams \<Rightarrow> AddTodoParams" where
  "omit_empty_add_todo p =
     p\<lparr> at_title := nonempty (at_title p), at_titles := nonempty (at_titles p),
        at_notes := nonempty (at_notes p), at_when := nonempty (at_when p),
        at_deadline := nonempty (at_deadline p), at_tags := nonempty (at_tags p),
        at_checklist_items := nonempty (at_checklist_items p),
        at_list_id := nonempty (at_list_id p), at_list := nonempty (at_list p),
        at_heading_id := nonempty (at_heading_id p), at_heading := nonempty (at_heading p),
        at_creation_date := nonempty (at_creation_date p),
        at_completion_date := nonempty (at_completion_date p) \<rparr>"

definition omit_empty_add_project :: "AddProjectParams \<Rightarrow> AddProjectParams" where
  "omit_empty_add_project p =
     p\<lparr> ap_title := nonempty (ap_title p), ap_notes := nonempty (ap_notes p),
        ap_when := nonempty (ap_when p), ap_deadline := nonempty (ap_deadline p),
        ap_tags := nonempty (ap_tags p), ap_area_id := nonempty (ap_area_id p),
        ap_area := nonempty (ap_area p), ap_to_dos := nonempty (ap_to_dos p),
        ap_creation_date := nonempty (ap_creation_date p),
        ap_completion_date := nonempty (ap_completion_date p) \<rparr>"

definition omit_empty_update_todo :: "UpdateTodoParams \<Rightarrow> UpdateTodoParams" where
  "omit_empty_update_todo p =
     p\<lparr> ut_title := nonempty (ut_title p), ut_notes := nonempty (ut_notes p),
        ut_prepend_notes := nonempty (ut_prepend_notes p),
        ut_append_notes := nonempty (ut_append_notes p),
        ut_when := nonempty (ut_when p), ut_deadline := nonempty (ut_deadline p),
        ut_tags := nonempty (ut_tags p), ut_add_tags := nonempty (ut_add_tags p),
        ut_checklist_items := nonempty (ut_checklist_items p),
        ut_prepend_checklist_items := nonempty (ut_prepend_checklist_items p),
        ut_append_checklist_items := nonempty (ut_append_checklist_items p),
        ut_list_id := nonempty (ut_list_id p), ut_list := nonempty (ut_list p),
        ut_heading_id := nonempty (ut_heading_id p), ut_heading := nonempty (ut_heading p),
        ut_creation_date := nonempty (ut_creation_date p),
        ut_completion_date := nonempty (ut_completion_date p) \<rparr>"

definition omit_empty_update_project :: "UpdateProjectParams \<Rightarrow> UpdateProjectParams" where
  "omit_empty_update_project p =
     p\<lparr> up_title := nonempty (up_title p), up_notes := nonempty (up_notes p),
        up_prepend_notes := nonempty (up_prepend_notes p),
        up_append_notes := nonempty (up_append_notes p),
        up_when := nonempty (up_when p), up_deadline := nonempty (up_deadline p),
        up_tags := nonempty (up_tags p), up_add_tags := nonempty (up_add_tags p),
        up_area_id := nonempty (up_area_id p), up_area := nonempty (up_area p),
        up_creation_date := nonempty (up_creation_date p),
        up_completion_date := nonempty (up_completion_date p) \<rparr>"

definition omit_empty_show :: "ShowParams \<Rightarrow> ShowParams" where
  "omit_empty_show p =
     p\<lparr> sh_id := nonempty (sh_id p), sh_query := nonempty (sh_query p),
        sh_filter := nonempty (sh_filter p) \<rparr>"

definition omit_empty_search :: "SearchParams \<Rightarrow> SearchParams" where
  "omit_empty_search p = p\<lparr> se_query := nonempty (se_query p) \<rparr>"

definition omit_empty_json :: "JsonParams \<Rightarrow> JsonParams" where
  "omit_empty_json p = p\<lparr> js_auth_token := nonempty (js_auth_token p) \<rparr>"

section \<open>The reschedule-distant-todos tool\<close>

text \<open>
  The server source at hand registers fifteen tools and not this one; only the handler's
  callers are present (the test scripts, which expect the error text "Auth token is
  required").  The handler and the resolution of its token are therefore modelled from
  sections 4.3, 6 and 7 of the specification.  Every external call and the engine
  evaluation are logged as effects, in order.
\<close>

record tool_args =
  arg_authToken :: "string option"
  arg_dryRun :: "bool option"
  arg_daysThreshold :: "int option"
  arg_bufferDays :: "int option"

record tool_report =
  rep_dryRun :: bool
  rep_totalToday :: nat
  rep_rescheduledCount :: nat
  rep_skippedSummary :: "(string \<times> nat) list"
  rep_rescheduled :: "decision list"

datatype tool_response = ToolError string | ToolResult tool_report

datatype effect = ReadToday | EvaluateEngine | WriteBatch "(string \<times> string) list"

text \<open>The external collaborators: what reading the Today list returns (an error text or
  the records), and whether a batch write fails (with an error text).\<close>

record collaborators =
  read_today :: "string + todo list"
  write_batch :: "string \<Rightarrow> (string \<times> string) list \<Rightarrow> string option"

text \<open>
  Modelled from the spec: the resolution of the auth token, whose code is not among the
  sources.  The token is the explicit parameter if it is non-empty, else the
  process-wide fallback if that is non-empty, else there is none.
\<close>

definition resolveAuthToken :: "string option \<Rightarrow> string option \<Rightarrow> string option" where
  "resolveAuthToken explicit fallback =
     (if truthy explicit then explicit else if truthy fallback then fallback else None)"

text \<open>
  Modelled from the spec: the handler of \<^verbatim>\<open>reschedule-distant-todos\<close>, whose code is
  not among the sources.  Without a token it answers with a structured error before
  anything else; then it reads the Today list, evaluates the engine, and unless this is
  a dry run or nothing is to be moved hands one batch of (id, when) updates to the write
  surface.  A failed read or write becomes a structured error as well.
\<close>

definition reschedule_handler ::
  "host \<Rightarrow> string option \<Rightarrow> collaborators \<Rightarrow> tool_args \<Rightarrow> tool_response \<times> effect list" where
  "reschedule_handler h fallback ext args =
     (case resolveAuthToken (arg_authToken args) fallback of
        None \<Rightarrow> (ToolError ''Auth token is required'', [])
      | Some token \<Rightarrow>
          (case read_today ext of
             Inl err \<Rightarrow> (ToolError (''Error fetching Today list: '' @ err), [ReadToday])
           | Inr todos \<Rightarrow>
               (let dry = (case arg_dryRun args of None \<Rightarrow> False | Some b \<Rightarrow> b);
                    r = simulateRescheduleLogic h todos
                          \<lparr> opt_daysThreshold = arg_daysThreshold args,
                            opt_bufferDays = arg_bufferDays args, opt_now = None \<rparr>;
                    report = \<lparr> rep_dryRun = dry, rep_totalToday = totalToday r,
                               rep_rescheduledCount = length (rescheduled r),
                               rep_skippedSummary = skippedSummary r,
                               rep_rescheduled = rescheduled r \<rparr>;
                    batch = map (\<lambda>d. (dec_id d, newWhen d)) (rescheduled r)
                in if dry \<or> rescheduled r = []
                   then (ToolResult report, [ReadToday, EvaluateEngine])
                   else (case write_batch ext token batch of
                           None \<Rightarrow> (ToolResult report, [ReadToday, EvaluateEngine, WriteBatch batch])
                         | Some err \<Rightarrow>
                             (ToolError (''Error rescheduling to-dos: '' @ err),
                              [ReadToday, EvaluateEngine, WriteBatch batch])))))"

section \<open>Properties of the calendar arithmetic\<close>

lemma div_succ:
  fixes a k :: int
  assumes "0 < k"
  shows "(a + 1) div k = a div k + (if (a + 1) mod k = 0 then 1 else 0)"
proof -
  have eq: "a + 1 = k * (a div k) + (a mod k + 1)" by simp
  have r: "0 \<le> a mod k" "a mod k < k" using assms by simp_all
  show ?thesis
  proof (cases "a mod k + 1 = k")
    case True
    then have "a + 1 = (a div k + 1) * k" using eq by (simp add: algebra_simps)
    then have "(a + 1) div k = a div k + 1" "(a + 1) mod k = 0"
      using assms by simp_all
    then show ?thesis by simp
  next
    case False
    then have lt: "a mod k + 1 < k" using r by simp
    have "(a + 1) div k = a div k"
      by (rule int_div_pos_eq [where r = "a mod k + 1"]) (use eq r lt in simp_all)
    moreover have "(a + 1) mod k = a mod k + 1"
      by (rule int_mod_pos_eq [where q = "a div k"]) (use eq r lt in simp_all)
    ultimately show ?thesis using r by simp
  qed
qed

lemma leap_4: "((y::int) - 1969 + 1) mod 4 = 0 \<longleftrightarrow> y mod 4 = 0" by presburger
lemma leap_100: "((y::int) - 1901 + 1) mod 100 = 0 \<longleftrightarrow> y mod 100 = 0" by presburger
lemma leap_400: "((y::int) - 1601 + 1) mod 400 = 0 \<longleftrightarrow> y mod 400 = 0" by presburger
lemma m4_100: "(y::int) mod 100 = 0 \<Longrightarrow> y mod 4 = 0"
  using mod_mod_cancel [of 4 100 y] by simp
lemma m100_400: "(y::int) mod 400 = 0 \<Longrightarrow> y mod 100 = 0"
  using mod_mod_cancel [of 100 400 y] by simp


lemma DayFromYear_Suc: "DayFromYear (y + 1) = DayFromYear y + DaysInYear y"
proof -
  have a: "(y + 1 - 1969) div 4 = (y - 1969) div 4 + (if y mod 4 = 0 then 1 else 0)"
    using div_succ [of 4 "y - 1969"] leap_4 [of y] by (simp add: algebra_simps)
  have b: "(y + 1 - 1901) div 100 = (y - 1901) div 100 + (if y mod 100 = 0 then 1 else 0)"
    using div_succ [of 100 "y - 1901"] leap_100 [of y] by (simp add: algebra_simps)
  have c: "(y + 1 - 1601) div 400 = (y - 1601) div 400 + (if y mod 400 = 0 then 1 else 0)"
    using div_succ [of 400 "y - 1601"] leap_400 [of y] by (simp add: algebra_simps)
  have d: "365 * (y + 1 - 1970) = 365 * (y - 1970) + 365" by simp
  show ?thesis
  proof (cases "y mod 400 = 0")
    case True
    then have h100: "y mod 100 = 0" by (rule m100_400)
    then have h4: "y mod 4 = 0" by (rule m4_100)
    from True h100 h4 show ?thesis
      unfolding DayFromYear_def DaysInYear_def InLeapYear_def a b c d by simp
  next
    case n400: False
    show ?thesis
    proof (cases "y mod 100 = 0")
      case True
      then have h4: "y mod 4 = 0" by (rule m4_100)
      from True n400 h4 show ?thesis
        unfolding DayFromYear_def DaysInYear_def InLeapYear_def a b c d by simp
    next
      case False
      with n400 show ?thesis
        unfolding DayFromYear_def DaysInYear_def InLeapYear_def a b c d by simp
    qed
  qed
qed


lemma div_lo: fixes a k :: int assumes "0 < k" shows "k * (a div k) \<le> a"
proof -
  have "a = k * (a div k) + a mod k" by simp
  moreover have "0 \<le> a mod k" using assms by simp
  ultimately show ?thesis by linarith
qed

lemma div_hi: fixes a k :: int assumes "0 < k" shows "a < k * (a div k) + k"
proof -
  have "a = k * (a div k) + a mod k" by simp
  moreover have "a mod k < k" using assms by simp
  ultimately show ?thesis by linarith
qed

lemma DayFromYear_upper: "400 * DayFromYear y \<le> 146097 * y - 287810501"
proof -
  define a where "a = (y - 1969) div 4"
  define b where "b = (y - 1901) div 100"
  define c where "c = (y - 1601) div 400"
  have D: "DayFromYear y = 365 * y - 719050 + a - b + c"
    by (simp add: DayFromYear_def a_def b_def c_def)
  have "4 * a \<le> y - 1969" unfolding a_def by (rule div_lo) simp
  moreover have "y - 1901 < 100 * b + 100" unfolding b_def by (rule div_hi) simp
  moreover have "400 * c \<le> y - 1601" unfolding c_def by (rule div_lo) simp
  ultimately show ?thesis using D by linarith
qed

lemma DayFromYear_lower: "146097 * y - 287811596 \<le> 400 * DayFromYear y"
proof -
  define a where "a = (y - 1969) div 4"
  define b where "b = (y - 1901) div 100"
  define c where "c = (y - 1601) div 400"
  have D: "DayFromYear y = 365 * y - 719050 + a - b + c"
    by (simp add: DayFromYear_def a_def b_def c_def)
  have "y - 1969 < 4 * a + 4" unfolding a_def by (rule div_hi) simp
  moreover have "100 * b \<le> y - 1901" unfolding b_def by (rule div_lo) simp
  moreover have "y - 1601 < 400 * c + 400" unfolding c_def by (rule div_hi) simp
  ultimately show ?thesis using D by linarith
qed

lemma DayFromYear_strict_mono: "y < y' \<Longrightarrow> DayFromYear y < DayFromYear y'"
  using DayFromYear_upper [of y] DayFromYear_lower [of y'] by linarith

lemma YearFromDay_bracket:
  "DayFromYear (YearFromDay n) \<le> n \<and> n < DayFromYear (YearFromDay n + 1)"
proof -
  define q where "q = (400 * n) div 146097"
  define y where "y = 1970 + q"
  define y0 where "y0 = y - 1"
  define y2 where "y2 = y + 1 + 1"
  have lo: "146097 * q \<le> 400 * n"
    unfolding q_def by (rule div_lo) simp
  have hi: "400 * n < 146097 * q + 146097"
    unfolding q_def by (rule div_hi) simp
  have yq: "y0 = 1969 + q" "y2 = 1972 + q" by (simp_all add: y_def y0_def y2_def)
  have a: "DayFromYear y0 \<le> n"
    using DayFromYear_upper [of y0] lo yq by linarith
  have b: "n < DayFromYear y2"
    using DayFromYear_lower [of y2] hi yq by linarith
  have "YearFromDay n = (if n < DayFromYear y then y - 1
      else if DayFromYear (y + 1) \<le> n then y + 1 else y)"
    by (simp add: YearFromDay_def Let_def y_def q_def)
  then show ?thesis using a b unfolding y0_def y2_def by auto
qed

lemma YearFromDay_unique:
  assumes "DayFromYear y \<le> n" "n < DayFromYear (y + 1)"
  shows "YearFromDay n = y"
proof (rule ccontr)
  assume ne: "YearFromDay n \<noteq> y"
  let ?z = "YearFromDay n"
  have br: "DayFromYear ?z \<le> n" "n < DayFromYear (?z + 1)"
    using YearFromDay_bracket [of n] by simp_all
  show False
  proof (cases "?z < y")
    case True
    then have "DayFromYear (?z + 1) \<le> DayFromYear y"
      using DayFromYear_strict_mono [of "?z + 1" y] by (cases "?z + 1 = y") auto
    then show False using br assms by linarith
  next
    case False
    then have "y < ?z" using ne by simp
    then have "DayFromYear (y + 1) \<le> DayFromYear ?z"
      using DayFromYear_strict_mono [of "y + 1" ?z] by (cases "y + 1 = ?z") auto
    then show False using br assms by linarith
  qed
qed

lemma DayWithinYear_range: "0 \<le> DayWithinYear n \<and> DayWithinYear n < DaysInYear (YearFromDay n)"
  using YearFromDay_bracket [of n] DayFromYear_Suc [of "YearFromDay n"]
  by (simp add: DayWithinYear_def)

lemma MonthFromDay_range: "0 \<le> MonthFromDay n \<and> MonthFromDay n \<le> 11"
  by (simp add: MonthFromDay_def Let_def)

lemma MakeDay_civil: "MakeDay (YearFromDay n) (MonthFromDay n) (DateFromDay n) = n"
proof -
  have "MonthFromDay n div 12 = 0" "MonthFromDay n mod 12 = MonthFromDay n"
    using MonthFromDay_range [of n] by simp_all
  then show ?thesis
    by (simp add: MakeDay_def DateFromDay_def DayWithinYear_def)
qed

lemma civil_MakeDay:
  assumes m: "0 \<le> m" "m \<le> 11" and d: "1 \<le> d" "d \<le> DaysInMonth m (InLeapYear y)"
  shows "YearFromDay (MakeDay y m d) = y \<and> MonthFromDay (MakeDay y m d) = m
         \<and> DateFromDay (MakeDay y m d) = d"
proof -
  define l where "l = InLeapYear y"
  define n where "n = MakeDay y m d"
  have l01: "l = 0 \<or> l = 1" by (simp add: InLeapYear_def l_def)
  have mm: "m div 12 = 0" "m mod 12 = m" using m by simp_all
  have n: "n = DayFromYear y + DayFromMonth m l + d - 1"
    by (simp add: MakeDay_def mm n_def l_def)
  have mcases: "m = 0 \<or> m = 1 \<or> m = 2 \<or> m = 3 \<or> m = 4 \<or> m = 5 \<or> m = 6 \<or> m = 7
      \<or> m = 8 \<or> m = 9 \<or> m = 10 \<or> m = 11" using m by arith
  have rng: "0 \<le> DayFromMonth m l + d - 1 \<and> DayFromMonth m l + d - 1 < DaysInYear y"
    using mcases d l01 unfolding l_def [symmetric]
    by (elim disjE; simp add: DayFromMonth_def DaysInMonth_def DaysInYear_def l_def [symmetric])
  have yr: "YearFromDay n = y"
  proof (rule YearFromDay_unique)
    show "DayFromYear y \<le> n" using rng n by linarith
    show "n < DayFromYear (y + 1)" using rng n DayFromYear_Suc [of y] by linarith
  qed
  have dwy: "DayWithinYear n = DayFromMonth m l + d - 1"
    unfolding DayWithinYear_def yr using n by linarith
  have mo: "MonthFromDay n = m"
    unfolding MonthFromDay_def Let_def dwy yr l_def [symmetric]
    using mcases d l01 unfolding l_def [symmetric]
    by (elim disjE; simp add: DayFromMonth_def DaysInMonth_def)
  have "DateFromDay n = d"
    unfolding DateFromDay_def dwy yr mo l_def [symmetric] by simp
  then show ?thesis using yr mo unfolding n_def by simp
qed

section \<open>The loop as a list of outcomes\<close>

lemma foldl_record_outcome:
  "foldl (\<lambda>acc t. record_outcome acc (f t)) (rs, sm) todos =
     (rs @ decisions_of (map f todos), foldl (\<lambda>s r. skipWith r s) sm (skips_of (map f todos)))"
proof (induction todos arbitrary: rs sm)
  case Nil
  show ?case by simp
next
  case (Cons t ts)
  show ?case
  proof (cases "f t")
    case (Skipped r)
    then show ?thesis using Cons.IH [of rs "skipWith r sm"] by simp
  next
    case (Rescheduled d)
    then show ?thesis using Cons.IH [of "rs @ [d]" sm] by simp
  qed
qed

lemma simulate_unfold:
  "simulateRescheduleLogic h todos options =
     \<lparr> rescheduled = decisions_of (map (loop_outcome h options) todos),
       skippedSummary = foldl (\<lambda>s r. skipWith r s) [] (skips_of (map (loop_outcome h options) todos)),
       totalToday = length todos \<rparr>"
  unfolding simulateRescheduleLogic_def loop_outcome_def Let_def
  by (simp add: foldl_record_outcome)

lemma sum_skipWith: "sum_list (map snd (skipWith r sm)) = sum_list (map snd sm) + 1"
  by (induction r sm rule: skipWith.induct) auto

lemma sum_foldl_skipWith:
  "sum_list (map snd (foldl (\<lambda>s r. skipWith r s) sm rs)) = sum_list (map snd sm) + length rs"
  by (induction rs arbitrary: sm) (auto simp: sum_skipWith)

lemma length_outcomes: "length (decisions_of os) + length (skips_of os) = length os"
  by (induction os rule: decisions_of.induct) auto

lemma map_of_skipWith:
  "map_of (skipWith r sm) k =
     (if k = r then Some (count_of r sm + 1) else map_of sm k)"
  by (induction r sm rule: skipWith.induct) (auto simp: count_of_def)

lemma count_of_skipWith:
  "count_of k (skipWith r sm) = (if k = r then count_of r sm + 1 else count_of k sm)"
  by (simp add: count_of_def map_of_skipWith)

lemma count_of_foldl:
  "count_of k (foldl (\<lambda>s r. skipWith r s) sm rs) = count_of k sm + length (filter (\<lambda>r. r = k) rs)"
  by (induction rs arbitrary: sm) (auto simp: count_of_skipWith)

lemma skips_filter:
  "length (filter (\<lambda>r. r = k) (skips_of (map f ts))) = length (filter (\<lambda>t. f t = Skipped k) ts)"
proof (induction ts)
  case Nil
  show ?case by simp
next
  case (Cons t ts)
  then show ?case by (cases "f t") auto
qed

lemma keys_skipWith: "set (map fst (skipWith r sm)) = insert r (set (map fst sm))"
  by (induction r sm rule: skipWith.induct) auto

lemma distinct_skipWith: "distinct (map fst sm) \<Longrightarrow> distinct (map fst (skipWith r sm))"
proof (induction r sm rule: skipWith.induct)
  case (1 reason)
  show ?case by simp
next
  case (2 reason k c rest)
  show ?case
  proof (cases "k = reason")
    case True
    then show ?thesis using 2 by simp
  next
    case False
    then have "distinct (map fst (skipWith reason rest))" using 2 by simp
    moreover have "k \<notin> set (map fst (skipWith reason rest))"
      using False 2(2) unfolding keys_skipWith by simp
    ultimately show ?thesis using False by simp
  qed
qed

lemma distinct_foldl_skipWith:
  "distinct (map fst sm) \<Longrightarrow> distinct (map fst (foldl (\<lambda>s r. skipWith r s) sm rs))"
  by (induction rs arbitrary: sm) (simp_all add: distinct_skipWith)

lemma distinct_skippedSummary:
  "distinct (map fst (skippedSummary (simulateRescheduleLogic h todos options)))"
  by (simp add: simulate_unfold distinct_foldl_skipWith)

lemma decisions_of_member:
  "dec \<in> set (decisions_of (map f ts)) \<Longrightarrow> \<exists>t\<in>set ts. f t = Rescheduled dec"
proof (induction ts)
  case Nil
  then show ?case by simp
next
  case (Cons t ts)
  then show ?case by (cases "f t") auto
qed

lemma decisions_come_from_todos:
  assumes "dec \<in> set (rescheduled (simulateRescheduleLogic h todos options))"
  shows "\<exists>t\<in>set todos. loop_outcome h options t = Rescheduled dec"
  using assms by (simp add: simulate_unfold decisions_of_member)

section \<open>C8: conservation of items\<close>

text \<open>
  C8.  Every to-do of the input is counted once: \<open>totalToday\<close> is the length of the
  input, the decisions and the skip counts add up to it, the count under a label is the
  number of to-dos skipped for that reason (so three open to-dos without a deadline give
  3 under "no deadline set"), and the empty input gives no decision, an empty summary
  and a total of 0.  Each label has one entry in the summary, so the sum over its
  entries is the sum over the labels.
\<close>

theorem conservation_of_items:
  "totalToday (simulateRescheduleLogic h todos options) = length todos
   \<and> length (rescheduled (simulateRescheduleLogic h todos options))
       + sum_list (map snd (skippedSummary (simulateRescheduleLogic h todos options)))
       = totalToday (simulateRescheduleLogic h todos options)
   \<and> (\<forall>label. count_of label (skippedSummary (simulateRescheduleLogic h todos options))
        = length (filter (\<lambda>t. loop_outcome h options t = Skipped label) todos))
   \<and> skippedSummary (simulateRescheduleLogic h
        [\<lparr>todo_id = i1, todo_name = n1, status = ''open'', dueDate = None, activationDate = a1\<rparr>,
         \<lparr>todo_id = i2, todo_name = n2, status = ''open'', dueDate = None, activationDate = a2\<rparr>,
         \<lparr>todo_id = i3, todo_name = n3, status = ''open'', dueDate = None, activationDate = a3\<rparr>]
        options) = [(''no deadline set'', 3)]
   \<and> simulateRescheduleLogic h [] options
        = \<lparr> rescheduled = [], skippedSummary = [], totalToday = 0 \<rparr>
   \<and> distinct (map fst (skippedSummary (simulateRescheduleLogic h todos options)))"
proof -
  let ?os = "map (loop_outcome h options) todos"
  have a: "totalToday (simulateRescheduleLogic h todos options) = length todos"
    by (simp add: simulate_unfold)
  have b: "length (rescheduled (simulateRescheduleLogic h todos options))
       + sum_list (map snd (skippedSummary (simulateRescheduleLogic h todos options)))
       = totalToday (simulateRescheduleLogic h todos options)"
    using length_outcomes [of ?os] by (simp add: simulate_unfold sum_foldl_skipWith)
  have c: "\<forall>label. count_of label (skippedSummary (simulateRescheduleLogic h todos options))
        = length (filter (\<lambda>t. loop_outcome h options t = Skipped label) todos)"
    by (simp add: simulate_unfold count_of_foldl skips_filter) (simp add: count_of_def)
  have nd: "\<And>i n a. loop_outcome h options
      \<lparr>todo_id = i, todo_name = n, status = ''open'', dueDate = None, activationDate = a\<rparr>
      = Skipped ''no deadline set''"
    by (simp add: loop_outcome_def classify_def truthy_def Let_def)
  have d: "skippedSummary (simulateRescheduleLogic h
        [\<lparr>todo_id = i1, todo_name = n1, status = ''open'', dueDate = None, activationDate = a1\<rparr>,
         \<lparr>todo_id = i2, todo_name = n2, status = ''open'', dueDate = None, activationDate = a2\<rparr>,
         \<lparr>todo_id = i3, todo_name = n3, status = ''open'', dueDate = None, activationDate = a3\<rparr>]
        options) = [(''no deadline set'', 3)]"
    by (simp add: simulate_unfold nd)
  have e: "simulateRescheduleLogic h [] options
        = \<lparr> rescheduled = [], skippedSummary = [], totalToday = 0 \<rparr>"
    by (simp add: simulate_unfold)
  from a b c d e distinct_skippedSummary [of h todos options] show ?thesis by blast
qed

theorem conservation_of_items_witness:
  "totalToday (simulateRescheduleLogic kst_host
      [\<lparr>todo_id = ''1'', todo_name = ''Far'', status = ''open'',
         dueDate = Some ''2026-06-01T00:00:00.000Z'', activationDate = None\<rparr>,
       \<lparr>todo_id = ''3'', todo_name = ''NoDL'', status = ''open'',
         dueDate = None, activationDate = None\<rparr>,
       \<lparr>todo_id = ''4'', todo_name = ''Done'', status = ''completed'',
         dueDate = Some ''2026-06-01T00:00:00.000Z'', activationDate = None\<rparr>]
      \<lparr>opt_daysThreshold = None, opt_bufferDays = None,
        opt_now = Some (newDate kst_host 2026 1 28)\<rparr>) = 3
   \<and> length (rescheduled (simulateRescheduleLogic kst_host
      [\<lparr>todo_id = ''1'', todo_name = ''Far'', status = ''open'',
         dueDate = Some ''2026-06-01T00:00:00.000Z'', activationDate = None\<rparr>,
       \<lparr>todo_id = ''3'', todo_name = ''NoDL'', status = ''open'',
         dueDate = None, activationDate = None\<rparr>,
       \<lparr>todo_id = ''4'', todo_name = ''Done'', status = ''completed'',
         dueDate = Some ''2026-06-01T00:00:00.000Z'', activationDate = None\<rparr>]
      \<lparr>opt_daysThreshold = None, opt_bufferDays = None,
        opt_now = Some (newDate kst_host 2026 1 28)\<rparr>))
     + sum_list (map snd (skippedSummary (simulateRescheduleLogic kst_host
      [\<lparr>todo_id = ''1'', todo_name = ''Far'', status = ''open'',
         dueDate = Some ''2026-06-01T00:00:00.000Z'', activationDate = None\<rparr>,
       \<lparr>todo_id = ''3'', todo_name = ''NoDL'', status = ''open'',
         dueDate = None, activationDate = None\<rparr>,
       \<lparr>todo_id = ''4'', todo_name = ''Done'', status = ''completed'',
         dueDate = Some ''2026-06-01T00:00:00.000Z'', activationDate = None\<rparr>]
      \<lparr>opt_daysThreshold = None, opt_bufferDays = None,
        opt_now = Some (newDate kst_host 2026 1 28)\<rparr>))) = 3"
  using conservation_of_items [of kst_host
      "[\<lparr>todo_id = ''1'', todo_name = ''Far'', status = ''open'',
         dueDate = Some ''2026-06-01T00:00:00.000Z'', activationDate = None\<rparr>,
       \<lparr>todo_id = ''3'', todo_name = ''NoDL'', status = ''open'',
         dueDate = None, activationDate = None\<rparr>,
       \<lparr>todo_id = ''4'', todo_name = ''Done'', status = ''completed'',
         dueDate = Some ''2026-06-01T00:00:00.000Z'', activationDate = None\<rparr>]"
      "\<lparr>opt_daysThreshold = None, opt_bufferDays = None,
        opt_now = Some (newDate kst_host 2026 1 28)\<rparr>"]
  by simp

section \<open>The loop body as a decision list\<close>

lemma classify_cases:
  "classify h thr buf tm ts t =
     (if status t \<noteq> ''open'' then Skipped ''status is not open''
      else if \<not> truthy (dueDate t) then Skipped ''no deadline set''
      else if protected_today h ts t
      then Skipped ''explicitly scheduled for today (activationDate = today)''
      else if js_less (days_until h tm t) (Some thr) then Skipped (threshold_label thr)
      else if js_le (getTime (target_of h buf t)) (getTime tm)
      then Skipped ''computed new date would not move to-do out of Today''
      else Rescheduled
        \<lparr> dec_id = todo_id t, dec_name = todo_name t,
          oldWhen = (if truthy (activationDate t)
                     then Some (formatDateLocal h (parseDateOnly h (the (activationDate t))))
                     else None),
          newWhen = formatDateLocal h (target_of h buf t),
          dec_dueDate = take 10 (the (dueDate t)),
          daysUntilDue = days_until h tm t \<rparr>)"
  by (simp add: classify_def Let_def protected_today_def deadline_of_def days_until_def
      target_of_def)

section \<open>C4: filter precedence\<close>

text \<open>
  C4.  The filters apply in a fixed order and the first that matches decides: status,
  then presence of a deadline, then the explicit-today protection, then the threshold,
  then the no-op guard; a to-do that is not open is counted under "status is not open"
  whether or not it has a deadline.  Each to-do has exactly one effect on the loop's
  state: one reason's counter goes up by one and no other changes, or one decision is
  appended.
\<close>

theorem filter_precedence:
  "(status t \<noteq> ''open'' \<longrightarrow> classify h thr buf tm ts t = Skipped ''status is not open'')
   \<and> (status t = ''open'' \<and> \<not> truthy (dueDate t)
        \<longrightarrow> classify h thr buf tm ts t = Skipped ''no deadline set'')
   \<and> (status t = ''open'' \<and> truthy (dueDate t) \<and> protected_today h ts t
        \<longrightarrow> classify h thr buf tm ts t
            = Skipped ''explicitly scheduled for today (activationDate = today)'')
   \<and> (status t = ''open'' \<and> truthy (dueDate t) \<and> \<not> protected_today h ts t
        \<and> js_less (days_until h tm t) (Some thr)
        \<longrightarrow> classify h thr buf tm ts t = Skipped (threshold_label thr))
   \<and> (status t = ''open'' \<and> truthy (dueDate t) \<and> \<not> protected_today h ts t
        \<and> \<not> js_less (days_until h tm t) (Some thr)
        \<and> js_le (getTime (target_of h buf t)) (getTime tm)
        \<longrightarrow> classify h thr buf tm ts t
            = Skipped ''computed new date would not move to-do out of Today'')
   \<and> (status t = ''open'' \<and> truthy (dueDate t) \<and> \<not> protected_today h ts t
        \<and> \<not> js_less (days_until h tm t) (Some thr)
        \<and> \<not> js_le (getTime (target_of h buf t)) (getTime tm)
        \<longrightarrow> (\<exists>d. classify h thr buf tm ts t = Rescheduled d))
   \<and> (\<forall>reason. classify h thr buf tm ts t = Skipped reason
        \<longrightarrow> record_outcome (rs, sm) (classify h thr buf tm ts t) = (rs, skipWith reason sm)
            \<and> count_of reason (skipWith reason sm) = count_of reason sm + 1
            \<and> (\<forall>k. k \<noteq> reason \<longrightarrow> count_of k (skipWith reason sm) = count_of k sm))
   \<and> (\<forall>d. classify h thr buf tm ts t = Rescheduled d
        \<longrightarrow> record_outcome (rs, sm) (classify h thr buf tm ts t) = (rs @ [d], sm))"
proof -
  have skip: "\<And>reason. count_of reason (skipWith reason sm) = count_of reason sm + 1
      \<and> (\<forall>k. k \<noteq> reason \<longrightarrow> count_of k (skipWith reason sm) = count_of k sm)"
    by (simp add: count_of_skipWith)
  show ?thesis
    unfolding classify_cases using skip by simp
qed

theorem filter_precedence_witness:
  "classify kst_host 7 3 (midnight kst_host 20512) ''2026-02-28''
     \<lparr>todo_id = ''4'', todo_name = ''Done'', status = ''completed'',
       dueDate = None, activationDate = None\<rparr> = Skipped ''status is not open''
   \<and> classify kst_host 7 3 (midnight kst_host 20512) ''2026-02-28''
     \<lparr>todo_id = ''3'', todo_name = ''NoDL'', status = ''open'',
       dueDate = None, activationDate = None\<rparr> = Skipped ''no deadline set''"
proof
  show "classify kst_host 7 3 (midnight kst_host 20512) ''2026-02-28''
     \<lparr>todo_id = ''4'', todo_name = ''Done'', status = ''completed'',
       dueDate = None, activationDate = None\<rparr> = Skipped ''status is not open''"
    using filter_precedence [of "\<lparr>todo_id = ''4'', todo_name = ''Done'', status = ''completed'',
       dueDate = None, activationDate = None\<rparr>" kst_host 7 3 "midnight kst_host 20512"
       "''2026-02-28''", THEN conjunct1]
    by simp
  show "classify kst_host 7 3 (midnight kst_host 20512) ''2026-02-28''
     \<lparr>todo_id = ''3'', todo_name = ''NoDL'', status = ''open'',
       dueDate = None, activationDate = None\<rparr> = Skipped ''no deadline set''"
    using filter_precedence [of "\<lparr>todo_id = ''3'', todo_name = ''NoDL'', status = ''open'',
       dueDate = None, activationDate = None\<rparr>" kst_host 7 3 "midnight kst_host 20512"
       "''2026-02-28''", THEN conjunct2, THEN conjunct1]
    by (simp add: truthy_def)
qed

section \<open>The URL builder: what reaches the query string\<close>

lemma truthy_nonempty: "truthy (nonempty v) = truthy v"
  by (cases v) (auto simp: truthy_def nonempty_def)

lemma if_truthy_nonempty: "if_truthy k (nonempty v) = if_truthy k v"
  by (cases v) (auto simp: if_truthy_def truthy_def nonempty_def)

lemma if_truthy_lines_nonempty: "if_truthy_lines k (nonempty v) = if_truthy_lines k v"
  by (cases v) (auto simp: if_truthy_lines_def truthy_def nonempty_def)

lemma truthy_the_nonempty: "truthy v \<Longrightarrow> the (nonempty v) = the v"
  by (cases v) (auto simp: truthy_def nonempty_def)

lemma kept_if_defined:
  "filter keep_param (if_defined k (nonempty v)) = filter keep_param (if_defined k v)"
  by (cases v) (auto simp: if_defined_def nonempty_def keep_param_def)

lemma buildURL_kept: "buildURL c ps = buildURL c (filter keep_param ps)"
  by (simp add: buildURL_def)

lemma buildURL_cong:
  "filter keep_param ps = filter keep_param qs \<Longrightarrow> buildURL c ps = buildURL c qs"
  by (simp add: buildURL_def)

lemma encodeParam_nonempty: "s \<noteq> [] \<Longrightarrow> encodeParam s \<noteq> []"
  by (cases s) (auto simp: encodeParam_def)

lemma value_text_nonempty: "keep_param kv \<Longrightarrow> value_text (snd kv) \<noteq> []"
  by (cases "snd kv") (auto simp: keep_param_def value_text_def encodeParam_nonempty)

lemma buildAddTodoURL_omit: "buildAddTodoURL (omit_empty_add_todo p) = buildAddTodoURL p"
  unfolding buildAddTodoURL_def
  by (rule buildURL_cong)
     (simp add: omit_empty_add_todo_def truthy_nonempty if_truthy_nonempty
        if_truthy_lines_nonempty truthy_the_nonempty)

lemma buildAddProjectURL_omit:
  "buildAddProjectURL (omit_empty_add_project p) = buildAddProjectURL p"
  unfolding buildAddProjectURL_def
  by (rule buildURL_cong)
     (simp add: omit_empty_add_project_def if_truthy_nonempty if_truthy_lines_nonempty)

lemma buildUpdateTodoURL_omit:
  "buildUpdateTodoURL (omit_empty_update_todo p) = buildUpdateTodoURL p"
  unfolding buildUpdateTodoURL_def
  by (rule buildURL_cong)
     (simp add: omit_empty_update_todo_def if_truthy_nonempty if_truthy_lines_nonempty
        kept_if_defined)

lemma buildUpdateProjectURL_omit:
  "buildUpdateProjectURL (omit_empty_update_project p) = buildUpdateProjectURL p"
  unfolding buildUpdateProjectURL_def
  by (rule buildURL_cong)
     (simp add: omit_empty_update_project_def if_truthy_nonempty kept_if_defined)

lemma buildShowURL_omit: "buildShowURL (omit_empty_show p) = buildShowURL p"
  by (simp add: buildShowURL_def omit_empty_show_def if_truthy_nonempty)

lemma buildSearchURL_omit: "buildSearchURL (omit_empty_search p) = buildSearchURL p"
  by (simp add: buildSearchURL_def omit_empty_search_def if_truthy_nonempty)

lemma buildJsonURL_omit: "buildJsonURL (omit_empty_json p) = buildJsonURL p"
  by (simp add: buildJsonURL_def omit_empty_json_def if_truthy_nonempty)

lemma buildUpdateTodoURL_notes:
  "buildUpdateTodoURL (p\<lparr>ut_notes := Some []\<rparr>) = buildUpdateTodoURL (p\<lparr>ut_notes := None\<rparr>)"
  unfolding buildUpdateTodoURL_def
  by (rule buildURL_cong) (simp add: if_defined_def keep_param_def)

lemma buildUpdateTodoURL_deadline:
  "buildUpdateTodoURL (p\<lparr>ut_deadline := Some []\<rparr>)
     = buildUpdateTodoURL (p\<lparr>ut_deadline := None\<rparr>)"
  unfolding buildUpdateTodoURL_def
  by (rule buildURL_cong) (simp add: if_defined_def keep_param_def)

lemma url_pairs_keys:
  assumes "distinct (map fst params)" "(k, v) \<in> set params" "v = Undefined \<or> v = Str []"
  shows "k \<notin> fst ` set (url_pairs params)"
proof
  assume "k \<in> fst ` set (url_pairs params)"
  then obtain kv where kv: "kv \<in> set params" "keep_param kv" "fst kv = k"
    by (auto simp: url_pairs_def)
  from assms(1) kv(1,3) assms(2) have "kv = (k, v)"
    by (metis eq_key_imp_eq_value prod.collapse)
  with kv(2) assms(3) show False by (auto simp: keep_param_def)
qed

lemma buildURL_pairs:
  "buildURL c ps = THINGS_SCHEME @ c @
     (if url_pairs ps = [] then []
      else ''?'' @ join_amp (map (\<lambda>kx. fst kx @ ''='' @ snd kx) (url_pairs ps)))"
proof -
  have "serialize_param = (\<lambda>x. fst x @ ''='' @ value_text (snd x))"
    by (rule ext) (simp add: serialize_param_def)
  then show ?thesis
    by (simp add: buildURL_def url_pairs_def comp_def)
qed

lemma buildURL_bare:
  assumes "\<forall>kv\<in>set params. snd kv = Undefined \<or> snd kv = Str []"
  shows "buildURL command params = ''things:///'' @ command"
proof -
  have "filter keep_param params = []"
    using assms by (auto simp: filter_empty_conv keep_param_def)
  then show ?thesis by (simp add: buildURL_def THINGS_SCHEME_def)
qed

section \<open>C10: empty values never reach the URL\<close>

text \<open>
  C10.  \<open>buildURL\<close> drops every parameter whose value is undefined or the empty string
  before it serialises: the URL is built from the kept parameters only, it is the bare
  \<^verbatim>\<open>things:///<command>\<close> when none is kept, every pair written has a non-empty text,
  and a key whose value is undefined or empty is absent from the query.  So each builder
  gives the same URL for an empty optional string as for the field left out; for
  \<open>buildUpdateTodoURL\<close> this includes \<^verbatim>\<open>notes\<close> and \<^verbatim>\<open>deadline\<close>.
\<close>

theorem buildURL_drops_empty_values:
  "buildURL command params = buildURL command (filter keep_param params)
   \<and> buildURL command params = THINGS_SCHEME @ command @
       (if url_pairs params = [] then []
        else ''?'' @ join_amp (map (\<lambda>kx. fst kx @ ''='' @ snd kx) (url_pairs params)))
   \<and> ((\<forall>kv\<in>set params. snd kv = Undefined \<or> snd kv = Str [])
        \<longrightarrow> buildURL command params = ''things:///'' @ command)
   \<and> (\<forall>kx\<in>set (url_pairs params). snd kx \<noteq> [])
   \<and> (\<forall>k v. distinct (map fst params) \<and> (k, v) \<in> set params \<and> (v = Undefined \<or> v = Str [])
        \<longrightarrow> k \<notin> fst ` set (url_pairs params))
   \<and> buildAddTodoURL (omit_empty_add_todo a) = buildAddTodoURL a
   \<and> buildAddProjectURL (omit_empty_add_project b) = buildAddProjectURL b
   \<and> buildUpdateTodoURL (omit_empty_update_todo u) = buildUpdateTodoURL u
   \<and> buildUpdateProjectURL (omit_empty_update_project w) = buildUpdateProjectURL w
   \<and> buildShowURL (omit_empty_show s) = buildShowURL s
   \<and> buildSearchURL (omit_empty_search q) = buildSearchURL q
   \<and> buildJsonURL (omit_empty_json j) = buildJsonURL j
   \<and> buildVersionURL = ''things:///version''
   \<and> buildUpdateTodoURL (u\<lparr>ut_notes := Some []\<rparr>) = buildUpdateTodoURL (u\<lparr>ut_notes := None\<rparr>)
   \<and> buildUpdateTodoURL (u\<lparr>ut_deadline := Some []\<rparr>)
       = buildUpdateTodoURL (u\<lparr>ut_deadline := None\<rparr>)"
proof -
  have pairs: "\<forall>kx\<in>set (url_pairs params). snd kx \<noteq> []"
    by (auto simp: url_pairs_def value_text_nonempty)
  have keys: "\<forall>k v. distinct (map fst params) \<and> (k, v) \<in> set params
        \<and> (v = Undefined \<or> v = Str []) \<longrightarrow> k \<notin> fst ` set (url_pairs params)"
    using url_pairs_keys by blast
  have ver: "buildVersionURL = ''things:///version''"
    by (simp add: buildVersionURL_def buildURL_def THINGS_SCHEME_def)
  have bare: "(\<forall>kv\<in>set params. snd kv = Undefined \<or> snd kv = Str [])
        \<longrightarrow> buildURL command params = ''things:///'' @ command"
    using buildURL_bare by blast
  show ?thesis
    by (intro conjI buildURL_kept buildURL_pairs bare pairs keys buildAddTodoURL_omit
        buildAddProjectURL_omit buildUpdateTodoURL_omit buildUpdateProjectURL_omit
        buildShowURL_omit buildSearchURL_omit buildJsonURL_omit ver
        buildUpdateTodoURL_notes buildUpdateTodoURL_deadline)
qed

theorem buildURL_drops_empty_values_witness:
  "buildURL ''add'' [(''title'', Undefined), (''notes'', Str [])] = ''things:///add''"
  using buildURL_drops_empty_values
    [of "''add''" "[(''title'', Undefined), (''notes'', Str [])]",
     THEN conjunct2, THEN conjunct2, THEN conjunct1]
  by simp

lemma buildUpdateTodoURL_example:
  "buildUpdateTodoURL
     \<lparr> ut_auth_token = ''tok123'', ut_id = ''abc-123'', ut_title = None, ut_notes = Some [],
       ut_prepend_notes = None, ut_append_notes = None, ut_when = Some ''2026-05-01'',
       ut_deadline = Some [], ut_tags = None, ut_add_tags = None, ut_checklist_items = None,
       ut_prepend_checklist_items = None, ut_append_checklist_items = None,
       ut_list_id = None, ut_list = None, ut_heading_id = None, ut_heading = None,
       ut_completed = None, ut_canceled = None, ut_reveal = None, ut_duplicate = None,
       ut_creation_date = None, ut_completion_date = None \<rparr>
   = ''things:///update?auth-token=tok123&id=abc-123&when=2026-05-01''"
  by code_simp

lemma encodeParam_example: "encodeParam ''Buy milk & eggs (2)'' = ''Buy%20milk%20%26%20eggs%20(2)''"
  by code_simp

section \<open>C9: the auth precondition\<close>

lemma resolveAuthToken_None:
  "resolveAuthToken explicit fallback = None \<longleftrightarrow> \<not> truthy explicit \<and> \<not> truthy fallback"
  by (cases explicit; cases fallback) (auto simp: resolveAuthToken_def truthy_def)

text \<open>
  C9.  When no auth token is resolvable (the explicit parameter and the fallback are
  both absent or empty), the tool returns the structured error "Auth token is required"
  and has made no external call and no engine evaluation; the handler is a total
  function, so nothing escapes the invocation.
\<close>

theorem missing_auth_token_is_structured_error:
  assumes "\<not> truthy (arg_authToken args)" and "\<not> truthy fallback"
  shows "reschedule_handler h fallback ext args = (ToolError ''Auth token is required'', [])"
proof -
  have "resolveAuthToken (arg_authToken args) fallback = None"
    using assms by (simp add: resolveAuthToken_None)
  then show ?thesis by (simp add: reschedule_handler_def)
qed

theorem missing_auth_token_is_structured_error_witness:
  "reschedule_handler kst_host None
     \<lparr> read_today = Inl ''unreachable'', write_batch = (\<lambda>token batch. None) \<rparr>
     \<lparr> arg_authToken = Some [], arg_dryRun = Some True,
       arg_daysThreshold = Some 7, arg_bufferDays = Some 3 \<rparr>
   = (ToolError ''Auth token is required'', [])"
  by (rule missing_auth_token_is_structured_error) (simp_all add: truthy_def)

section \<open>Digits, padded fields and their parsing\<close>

lemma digit_cases:
  fixes k :: int
  assumes "0 \<le> k" "k \<le> 9"
  shows "k = 0 \<or> k = 1 \<or> k = 2 \<or> k = 3 \<or> k = 4 \<or> k = 5 \<or> k = 6 \<or> k = 7 \<or> k = 8 \<or> k = 9"
  using assms by arith

lemma digitVal_digitChar:
  assumes "0 \<le> k" "k \<le> 9"
  shows "digitVal (digitChar k) = k"
  using digit_cases [OF assms] by (elim disjE; simp add: digitVal_def digitChar_def)

lemma isDigit_digitChar:
  assumes "0 \<le> k" "k \<le> 9"
  shows "isDigit (digitChar k)"
  using digit_cases [OF assms] by (elim disjE; simp add: isDigit_def digitChar_def)

lemma digitChar_not_dash:
  assumes "0 \<le> k" "k \<le> 9"
  shows "digitChar k \<noteq> CHR ''-''"
  using digit_cases [OF assms] by (elim disjE; simp add: digitChar_def)

lemma div_mod_digit:
  fixes k :: int
  assumes "0 \<le> k" "k \<le> 99"
  shows "0 \<le> k div 10" "k div 10 \<le> 9" "0 \<le> k mod 10" "k mod 10 \<le> 9"
  using assms by simp_all

lemma Number_digits_pad2: "0 \<le> k \<Longrightarrow> k \<le> 99 \<Longrightarrow> Number_digits (pad2 k) = k"
  using div_mod_digit [of k]
  by (simp add: Number_digits_def pad2_def digitVal_digitChar)

lemma digits_pad2: "0 \<le> k \<Longrightarrow> k \<le> 99 \<Longrightarrow> list_all isDigit (pad2 k)"
  using div_mod_digit [of k] by (simp add: pad2_def isDigit_digitChar)

lemma no_dash_pad2: "0 \<le> k \<Longrightarrow> k \<le> 99 \<Longrightarrow> CHR ''-'' \<notin> set (pad2 k)"
  using div_mod_digit [of k] digitChar_not_dash [of "k div 10"] digitChar_not_dash [of "k mod 10"]
  by (auto simp: pad2_def)

lemma pad4_pad2: "pad4 y = pad2 (y div 100) @ pad2 (y mod 100)"
  by (simp add: pad4_def)

lemma Number_digits_append:
  "Number_digits (xs @ ys) = foldl (\<lambda>a c. 10 * a + digitVal c) (Number_digits xs) ys"
  by (simp add: Number_digits_def)

lemma year_parts:
  fixes y :: int
  assumes "0 \<le> y" "y \<le> 9999"
  shows "0 \<le> y div 100" "y div 100 \<le> 99" "0 \<le> y mod 100" "y mod 100 \<le> 99"
  using assms by simp_all

lemma Number_digits_pad4: "0 \<le> y \<Longrightarrow> y \<le> 9999 \<Longrightarrow> Number_digits (pad4 y) = y"
proof -
  assume y: "0 \<le> y" "y \<le> 9999"
  have a: "Number_digits (pad2 (y div 100)) = y div 100"
    using year_parts [OF y] by (simp add: Number_digits_pad2)
  have b: "0 \<le> y mod 100 div 10" "y mod 100 div 10 \<le> 9" "0 \<le> y mod 100 mod 10" "y mod 100 mod 10 \<le> 9"
    by simp_all
  have "Number_digits (pad4 y) = 100 * (y div 100) + (10 * (y mod 100 div 10) + y mod 100 mod 10)"
    unfolding pad4_pad2 Number_digits_append a
    using b by (simp add: pad2_def digitVal_digitChar)
  also have "\<dots> = 100 * (y div 100) + y mod 100" by simp
  also have "\<dots> = y" by simp
  finally show ?thesis .
qed

lemma digits_pad4: "0 \<le> y \<Longrightarrow> y \<le> 9999 \<Longrightarrow> list_all isDigit (pad4 y)"
  using year_parts [of y] by (simp add: pad4_pad2 digits_pad2)

lemma no_dash_pad4: "0 \<le> y \<Longrightarrow> y \<le> 9999 \<Longrightarrow> CHR ''-'' \<notin> set (pad4 y)"
  using year_parts [of y] no_dash_pad2 [of "y div 100"] no_dash_pad2 [of "y mod 100"]
  by (simp add: pad4_pad2)

lemma split_dash_no_dash: "CHR ''-'' \<notin> set xs \<Longrightarrow> split_dash xs = [xs]"
  by (induction xs) auto

lemma split_dash_append:
  "CHR ''-'' \<notin> set xs \<Longrightarrow> split_dash (xs @ CHR ''-'' # ys) = xs # split_dash ys"
  by (induction xs) auto

lemma length_pad2: "length (pad2 k) = 2" by (simp add: pad2_def)
lemma length_pad4: "length (pad4 k) = 4" by (simp add: pad4_def pad2_def)

lemma length_iso_ymd: "length (iso_ymd y m d) = 10"
  by (simp add: iso_ymd_def length_pad2 length_pad4)

lemma split_dash_iso:
  assumes "0 \<le> y" "y \<le> 9999" "0 \<le> m" "m \<le> 99" "0 \<le> d" "d \<le> 99"
  shows "split_dash (iso_ymd y m d) = [pad4 y, pad2 m, pad2 d]"
  using assms
  by (simp add: iso_ymd_def split_dash_append split_dash_no_dash no_dash_pad2 no_dash_pad4)

lemma parseDateOnly_iso:
  assumes "0 \<le> y" "y \<le> 9999" "0 \<le> m" "m \<le> 99" "0 \<le> d" "d \<le> 99"
  shows "parseDateOnly h (iso_ymd y m d @ rest) = newDate h y (m - 1) d"
  using assms
  by (simp add: parseDateOnly_def length_iso_ymd split_dash_iso digits_pad2 digits_pad4
      Number_digits_pad2 Number_digits_pad4)

section \<open>Printing numbers and calendar days\<close>

lemma String_nat_one: "n < 10 \<Longrightarrow> String_nat n = [digitChar (int n)]"
  by (subst String_nat.simps) simp

lemma String_nat_step:
  "10 \<le> n \<Longrightarrow> String_nat n = String_nat (n div 10) @ [digitChar (int (n mod 10))]"
  by (subst String_nat.simps) simp

lemma digitChar_0: "digitChar 0 = CHR ''0''"
  by (simp add: digitChar_def)

lemma padStart2_String_int:
  assumes "0 \<le> k" "k \<le> 99"
  shows "padStart2 (String_int k) = pad2 k"
proof (cases "k < 10")
  case True
  then have "k div 10 = 0" "k mod 10 = k" using assms by simp_all
  moreover have "String_int k = [digitChar k]"
    using assms True by (simp add: String_int_def String_nat_one)
  ultimately show ?thesis by (simp add: padStart2_def pad2_def digitChar_0)
next
  case False
  then have n: "10 \<le> nat k" "nat k div 10 < 10" using assms by simp_all
  have "String_nat (nat k) = [digitChar (int (nat k div 10)), digitChar (int (nat k mod 10))]"
    using n by (simp add: String_nat_step String_nat_one)
  moreover have "int (nat k div 10) = k div 10" "int (nat k mod 10) = k mod 10"
    using assms by (simp_all add: zdiv_int zmod_int)
  ultimately show ?thesis using assms by (simp add: padStart2_def pad2_def String_int_def)
qed

lemma String_nat_two:
  assumes "10 \<le> n" "n < 100"
  shows "String_nat n = [digitChar (int (n div 10)), digitChar (int (n mod 10))]"
proof -
  have "n div 10 < 10" using assms by simp
  then have "String_nat (n div 10) = [digitChar (int (n div 10))]" by (rule String_nat_one)
  then show ?thesis using String_nat_step [OF assms(1)] by simp
qed

lemma String_nat_hundreds:
  assumes "1 \<le> q" "r < 100"
  shows "String_nat (100 * q + r)
     = String_nat q @ [digitChar (int (r div 10)), digitChar (int (r mod 10))]"
proof -
  define n where "n = 100 * q + r"
  have nr: "n = r + (10 * q) * 10" by (simp add: n_def)
  have n10: "n div 10 = 10 * q + r div 10" "n mod 10 = r mod 10"
    unfolding nr by (simp_all only: div_mult_self1 mod_mult_self1)
  have r10: "r div 10 < 10" using assms by simp
  have n100: "n div 10 div 10 = q" "n div 10 mod 10 = r div 10"
    unfolding n10 using r10 by simp_all
  have ge: "10 \<le> n" "10 \<le> n div 10" unfolding n10 unfolding n_def using assms by simp_all
  have s1: "String_nat n = String_nat (n div 10) @ [digitChar (int (n mod 10))]"
    using ge(1) by (rule String_nat_step)
  have s2: "String_nat (n div 10)
      = String_nat (n div 10 div 10) @ [digitChar (int (n div 10 mod 10))]"
    using ge(2) by (rule String_nat_step)
  have "String_nat n = String_nat q @ [digitChar (int (r div 10)), digitChar (int (r mod 10))]"
    unfolding s1 s2 n100 n10(2) by simp
  then show ?thesis unfolding n_def .
qed

lemma String_int_pad4:
  assumes "1000 \<le> y" "y \<le> 9999"
  shows "String_int y = pad4 y"
proof -
  define q where "q = nat (y div 100)"
  define r where "r = nat (y mod 100)"
  have q: "10 \<le> q" "q < 100" using assms by (simp_all add: q_def)
  have r: "r < 100" by (simp add: r_def)
  have y: "nat y = 100 * q + r"
  proof -
    have "y = 100 * (y div 100) + y mod 100" by simp
    moreover have "0 \<le> y div 100" "0 \<le> y mod 100" using assms by simp_all
    ultimately show ?thesis unfolding q_def r_def by linarith
  qed
  have iq: "int q = y div 100" "int r = y mod 100" using assms by (simp_all add: q_def r_def)
  have "String_nat (nat y)
      = String_nat q @ [digitChar (int (r div 10)), digitChar (int (r mod 10))]"
    unfolding y using q r by (intro String_nat_hundreds) simp_all
  also have "String_nat q = [digitChar (int (q div 10)), digitChar (int (q mod 10))]"
    using q by (rule String_nat_two)
  finally have "String_nat (nat y) = pad4 y"
    by (simp add: pad4_def pad2_def zdiv_int zmod_int iq)
  then show ?thesis using assms by (simp add: String_int_def)
qed

lemma Number_digits_snoc: "Number_digits (xs @ [c]) = 10 * Number_digits xs + digitVal c"
  by (simp add: Number_digits_def)

lemma Number_digits_String_nat: "Number_digits (String_nat n) = int n"
proof (induction n rule: String_nat.induct)
  case (1 n)
  show ?case
  proof (cases "n < 10")
    case True
    then show ?thesis
      by (simp add: String_nat_one Number_digits_def digitVal_digitChar)
  next
    case False
    then have "Number_digits (String_nat (n div 10)) = int (n div 10)" using 1 by simp
    moreover have "digitVal (digitChar (int (n mod 10))) = int (n mod 10)"
      by (rule digitVal_digitChar) simp_all
    moreover have "String_nat n = String_nat (n div 10) @ [digitChar (int (n mod 10))]"
      using False by (intro String_nat_step) simp
    moreover have "10 * int (n div 10) + int (n mod 10) = int n"
      by (simp add: zdiv_int zmod_int)
    ultimately show ?thesis
      by (simp add: Number_digits_snoc)
  qed
qed

lemma no_dash_String_nat: "CHR ''-'' \<notin> set (String_nat n)"
proof (induction n rule: String_nat.induct)
  case (1 n)
  have d: "\<And>k::nat. k < 10 \<Longrightarrow> digitChar (int k) \<noteq> CHR ''-''"
    by (rule digitChar_not_dash) simp_all
  show ?case
  proof (cases "n < 10")
    case True
    then show ?thesis using d [of n] by (simp add: String_nat_one)
  next
    case False
    then show ?thesis using 1 d [of "n mod 10"] by (simp add: String_nat_step)
  qed
qed

lemma String_int_inj:
  assumes "String_int a = String_int b"
  shows "a = b"
proof -
  have pos: "\<And>i. 0 \<le> i \<Longrightarrow> Number_digits (String_int i) = i"
    by (simp add: String_int_def Number_digits_String_nat)
  have neg: "\<And>i. i < 0 \<Longrightarrow> String_int i = CHR ''-'' # String_nat (nat (- i))"
    by (simp add: String_int_def)
  have nd: "\<And>i. 0 \<le> i \<Longrightarrow> CHR ''-'' \<notin> set (String_int i)"
    by (simp add: String_int_def no_dash_String_nat)
  show ?thesis
  proof (cases "a < 0"; cases "b < 0")
    assume "a < 0" "b < 0"
    then have "String_nat (nat (- a)) = String_nat (nat (- b))" using assms neg by simp
    then have "int (nat (- a)) = int (nat (- b))"
      using Number_digits_String_nat by metis
    then show ?thesis using \<open>a < 0\<close> \<open>b < 0\<close> by simp
  next
    assume "a < 0" "\<not> b < 0"
    then have "String_int b = CHR ''-'' # String_nat (nat (- a))" using assms neg [of a] by simp
    then have "CHR ''-'' \<in> set (String_int b)" by simp
    then show ?thesis using nd [of b] \<open>\<not> b < 0\<close> by simp
  next
    assume "\<not> a < 0" "b < 0"
    then have "String_int a = CHR ''-'' # String_nat (nat (- b))" using assms neg [of b] by simp
    then have "CHR ''-'' \<in> set (String_int a)" by simp
    then show ?thesis using nd [of a] \<open>\<not> a < 0\<close> by simp
  next
    assume "\<not> a < 0" "\<not> b < 0"
    then have ab: "Number_digits (String_int a) = a" "Number_digits (String_int b) = b"
      using pos by simp_all
    have "a = Number_digits (String_int a)" by (rule ab(1) [symmetric])
    also have "\<dots> = Number_digits (String_int b)" by (rule arg_cong [OF assms])
    also have "\<dots> = b" by (rule ab(2))
    finally show ?thesis .
  qed
qed

lemma pad2_inj:
  assumes "pad2 a = pad2 b" "0 \<le> a" "a \<le> 99" "0 \<le> b" "b \<le> 99"
  shows "a = b"
proof -
  have "a = Number_digits (pad2 a)" using assms(2,3) by (simp add: Number_digits_pad2)
  also have "\<dots> = Number_digits (pad2 b)" by (rule arg_cong [OF assms(1)])
  also have "\<dots> = b" using assms(4,5) by (simp add: Number_digits_pad2)
  finally show ?thesis .
qed

lemma DateFromDay_range:
  "1 \<le> DateFromDay n \<and> DateFromDay n \<le> DaysInMonth (MonthFromDay n) (InLeapYear (YearFromDay n))"
proof -
  define d where "d = DayWithinYear n"
  define l where "l = InLeapYear (YearFromDay n)"
  have l01: "l = 0 \<or> l = 1" by (simp add: l_def InLeapYear_def)
  have d: "0 \<le> d" "d < 365 + l"
    using DayWithinYear_range [of n] by (simp_all add: d_def l_def DaysInYear_def)
  have cases: "d < 31 \<or> (31 \<le> d \<and> d < 59 + l) \<or> (59 + l \<le> d \<and> d < 90 + l)
      \<or> (90 + l \<le> d \<and> d < 120 + l) \<or> (120 + l \<le> d \<and> d < 151 + l)
      \<or> (151 + l \<le> d \<and> d < 181 + l) \<or> (181 + l \<le> d \<and> d < 212 + l)
      \<or> (212 + l \<le> d \<and> d < 243 + l) \<or> (243 + l \<le> d \<and> d < 273 + l)
      \<or> (273 + l \<le> d \<and> d < 304 + l) \<or> (304 + l \<le> d \<and> d < 334 + l)
      \<or> 334 + l \<le> d" by linarith
  show ?thesis
    unfolding DateFromDay_def MonthFromDay_def Let_def d_def [symmetric] l_def [symmetric]
    using cases d l01
    by (elim disjE; simp add: DayFromMonth_def DaysInMonth_def)
qed

lemma DaysInMonth_le: "InLeapYear y \<le> 1 \<and> DaysInMonth m (InLeapYear y) \<le> 31"
  by (simp add: DaysInMonth_def InLeapYear_def)

lemma day_fields_range:
  "1 \<le> MonthFromDay n + 1" "MonthFromDay n + 1 \<le> 12" "1 \<le> DateFromDay n" "DateFromDay n \<le> 31"
proof -
  have m: "0 \<le> MonthFromDay n" "MonthFromDay n \<le> 11"
    using MonthFromDay_range [of n] by blast+
  show "1 \<le> MonthFromDay n + 1" "MonthFromDay n + 1 \<le> 12" using m by simp_all
  have d: "1 \<le> DateFromDay n"
    "DateFromDay n \<le> DaysInMonth (MonthFromDay n) (InLeapYear (YearFromDay n))"
    using DateFromDay_range [of n] by blast+
  have "DaysInMonth (MonthFromDay n) (InLeapYear (YearFromDay n)) \<le> 31"
    using DaysInMonth_le [of "YearFromDay n" "MonthFromDay n"] by blast
  with d show "1 \<le> DateFromDay n" "DateFromDay n \<le> 31" by linarith+
qed

lemma day_string_inj:
  assumes "day_string n = day_string n'"
  shows "n = n'"
proof -
  let ?s = "\<lambda>k. ''-'' @ pad2 (MonthFromDay k + 1) @ ''-'' @ pad2 (DateFromDay k)"
  have eq: "String_int (YearFromDay n) @ ?s n = String_int (YearFromDay n') @ ?s n'"
    using assms by (simp add: day_string_def)
  have len: "length (?s n) = length (?s n')" by (simp add: length_pad2)
  from eq len have ys: "String_int (YearFromDay n) = String_int (YearFromDay n') \<and> ?s n = ?s n'"
    using append_eq_append_conv [of "String_int (YearFromDay n)"
        "String_int (YearFromDay n')" "?s n" "?s n'"] by blast
  then have y: "String_int (YearFromDay n) = String_int (YearFromDay n')"
    and s: "?s n = ?s n'" by blast+
  from s have "pad2 (MonthFromDay n + 1) @ ''-'' @ pad2 (DateFromDay n)
      = pad2 (MonthFromDay n' + 1) @ ''-'' @ pad2 (DateFromDay n')" by simp
  then have m: "pad2 (MonthFromDay n + 1) = pad2 (MonthFromDay n' + 1)"
    and d: "pad2 (DateFromDay n) = pad2 (DateFromDay n')"
    by (simp_all add: length_pad2)
  have "YearFromDay n = YearFromDay n'" using y by (rule String_int_inj)
  moreover have "MonthFromDay n + 1 = MonthFromDay n' + 1"
    using m by (rule pad2_inj) (use day_fields_range [of n] day_fields_range [of n'] in linarith)+
  then have "MonthFromDay n = MonthFromDay n'" by simp
  moreover have "DateFromDay n = DateFromDay n'"
    using d by (rule pad2_inj) (use day_fields_range [of n] day_fields_range [of n'] in linarith)+
  ultimately have "MakeDay (YearFromDay n) (MonthFromDay n) (DateFromDay n)
      = MakeDay (YearFromDay n') (MonthFromDay n') (DateFromDay n')" by (simp only:)
  then show ?thesis by (simp only: MakeDay_civil)
qed

section \<open>Dates at local midnight on a regular host\<close>

lemma Day_midnight: "Day (n * msPerDay) = n" "TimeWithinDay (n * msPerDay) = 0"
  by (simp_all add: Day_def TimeWithinDay_def msPerDay_def)

lemma regular_LocalTime:
  "regular_host h \<Longrightarrow> LocalTime h (UTC h (n * msPerDay)) = n * msPerDay"
  by (simp add: regular_host_def)



lemma regular_bound: "regular_host h \<Longrightarrow> \<bar>LocalTZA h t False\<bar> \<le> msPerDay"
  by (simp add: regular_host_def)

lemma regular_fixed_host: "\<bar>off\<bar> \<le> msPerDay \<Longrightarrow> regular_host (fixed_host off)"
  by (simp add: regular_host_def fixed_host_def LocalTime_def UTC_def msPerDay_def)

lemma fields_midnight:
  assumes "regular_host h"
  shows "getFullYear h (midnight h n) = Some (YearFromDay n)"
    and "getMonth h (midnight h n) = Some (MonthFromDay n)"
    and "getDate h (midnight h n) = Some (DateFromDay n)"
  using regular_LocalTime [OF assms, of n]
  by (simp_all add: getFullYear_def getMonth_def getDate_def midnight_def Day_midnight)

lemma formatDateLocal_midnight:
  assumes "regular_host h"
  shows "formatDateLocal h (midnight h n) = day_string n"
proof -
  have m: "padStart2 (String_int (MonthFromDay n + 1)) = pad2 (MonthFromDay n + 1)"
    by (rule padStart2_String_int) (use day_fields_range [of n] in linarith)+
  have d: "padStart2 (String_int (DateFromDay n)) = pad2 (DateFromDay n)"
    by (rule padStart2_String_int) (use day_fields_range [of n] in linarith)+
  show ?thesis
    by (simp add: formatDateLocal_def fields_midnight [OF assms] String_num_def m d
        day_string_def)
qed

lemma TimeClip_midnight:
  assumes "regular_host h" "\<bar>n\<bar> < 100000000"
  shows "TimeClip (UTC h (n * msPerDay)) = midnight h n"
proof -
  have "\<bar>LocalTZA h (n * msPerDay) False\<bar> \<le> 86400000"
    using regular_bound [OF assms(1), of "n * msPerDay"] by (simp add: msPerDay_def)
  moreover have "\<bar>n * 86400000\<bar> \<le> 8639999913600000" using assms(2) by linarith
  ultimately have "\<bar>UTC h (n * msPerDay)\<bar> \<le> 8640000000000000"
    by (simp add: UTC_def msPerDay_def)
  then show ?thesis by (simp add: TimeClip_def midnight_def)
qed

lemma newDate_midnight:
  assumes "regular_host h" "\<not> (0 \<le> y \<and> y \<le> 99)" "\<bar>MakeDay y m d\<bar> < 100000000"
  shows "newDate h y m d = midnight h (MakeDay y m d)"
proof -
  have "(if 0 \<le> y \<and> y \<le> 99 then 1900 + y else y) = y" using assms(2) by auto
  then show ?thesis
    unfolding newDate_def Let_def by (simp only: TimeClip_midnight [OF assms(1,3)])
qed

lemma civil_day_bound:
  assumes "0 \<le> y" "y \<le> 9999" "valid_ymd y m d"
  shows "\<bar>civil_day y m d\<bar> < 10000000"
proof -
  define l where "l = InLeapYear y"
  have l: "0 \<le> l" "l \<le> 1" by (simp_all add: l_def InLeapYear_def)
  have m: "0 \<le> m - 1" "m - 1 \<le> 11" using assms(3) by (simp_all add: valid_ymd_def)
  then have mm: "(m - 1) div 12 = 0" "(m - 1) mod 12 = m - 1" by simp_all
  have dm: "0 \<le> DayFromMonth (m - 1) l" "DayFromMonth (m - 1) l \<le> 335"
    using l by (simp_all add: DayFromMonth_def)
  have dd: "1 \<le> d" "d \<le> 31"
    using assms(3) DaysInMonth_le [of y "m - 1"] by (simp_all add: valid_ymd_def)
  have c: "civil_day y m d = DayFromYear y + DayFromMonth (m - 1) l + d - 1"
    by (simp add: civil_day_def MakeDay_def mm l_def)
  have "400 * DayFromYear y \<le> 146097 * y - 287810501" by (rule DayFromYear_upper)
  moreover have "146097 * y - 287811596 \<le> 400 * DayFromYear y" by (rule DayFromYear_lower)
  ultimately show ?thesis using assms(1,2) dm dd c by linarith
qed

lemma parseDateOnly_midnight:
  assumes "regular_host h" "valid_ymd y m d" "100 \<le> y" "y \<le> 9999"
  shows "parseDateOnly h (iso_ymd y m d @ rest) = midnight h (civil_day y m d)"
proof -
  have md: "0 \<le> m" "m \<le> 99" "0 \<le> d" "d \<le> 99"
    using assms(2) DaysInMonth_le [of y "m - 1"] by (simp_all add: valid_ymd_def)
  have "parseDateOnly h (iso_ymd y m d @ rest) = newDate h y (m - 1) d"
    using assms(3,4) md by (intro parseDateOnly_iso) simp_all
  moreover have "\<bar>MakeDay y (m - 1) d\<bar> < 100000000"
    using civil_day_bound [of y m d] assms by (simp add: civil_day_def)
  ultimately show ?thesis
    using newDate_midnight [OF assms(1), of y "m - 1" d] assms(3)
    by (simp add: civil_day_def)
qed







lemma todayMidnight_of_regular:
  assumes "regular_host h" "Day (LocalTime h t) = N"
    and "\<not> (0 \<le> YearFromDay N \<and> YearFromDay N \<le> 99)" "\<bar>N\<bar> < 100000000"
  shows "todayMidnight_of h (Some t) = midnight h N"
proof -
  have "newDate h (YearFromDay N) (MonthFromDay N) (DateFromDay N) = midnight h N"
    using newDate_midnight [OF assms(1,3), of "MonthFromDay N" "DateFromDay N"] assms(4)
    by (simp add: MakeDay_civil)
  then show ?thesis
    by (simp add: todayMidnight_of_def getFullYear_def getMonth_def getDate_def assms(2))
qed

lemma loop_outcome_today:
  assumes "regular_host h" "opt_now options = Some (Some t)" "Day (LocalTime h t) = N"
    and "\<not> (0 \<le> YearFromDay N \<and> YearFromDay N \<le> 99)" "\<bar>N\<bar> < 100000000"
  shows "loop_outcome h options x
     = classify h (case opt_daysThreshold options of None \<Rightarrow> 7 | Some v \<Rightarrow> v)
         (case opt_bufferDays options of None \<Rightarrow> 3 | Some v \<Rightarrow> v)
         (midnight h N) (formatDateLocal h (midnight h N)) x"
  by (simp add: loop_outcome_def Let_def assms(2) todayMidnight_of_regular [OF assms(1,3,4,5)])

section \<open>C1: the target date\<close>

lemma civil_day_next:
  assumes "valid_ymd y m d"
  shows "civil_day y m d + 1 =
     (if d < DaysInMonth (m - 1) (InLeapYear y) then civil_day y m (d + 1)
      else if m < 12 then civil_day y (m + 1) 1
      else civil_day (y + 1) 1 1)"
proof -
  define l where "l = InLeapYear y"
  have l01: "l = 0 \<or> l = 1" by (simp add: l_def InLeapYear_def)
  have m: "1 \<le> m" "m \<le> 12" and d: "1 \<le> d" "d \<le> DaysInMonth (m - 1) l"
    using assms by (simp_all add: valid_ymd_def l_def)
  have mcases: "m = 1 \<or> m = 2 \<or> m = 3 \<or> m = 4 \<or> m = 5 \<or> m = 6 \<or> m = 7 \<or> m = 8
      \<or> m = 9 \<or> m = 10 \<or> m = 11 \<or> m = 12" using m by arith
  have c: "\<And>k e. 0 \<le> k \<Longrightarrow> k \<le> 11 \<Longrightarrow> MakeDay y k e = DayFromYear y + DayFromMonth k l + e - 1"
    by (simp add: MakeDay_def l_def)
  have c1: "MakeDay (y + 1) 0 1 = DayFromYear y + 365 + l"
    by (simp add: MakeDay_def DayFromMonth_def DayFromYear_Suc DaysInYear_def l_def)
  show ?thesis
  proof (cases "d < DaysInMonth (m - 1) l")
    case True
    then show ?thesis using m by (simp add: civil_day_def c l_def [symmetric])
  next
    case last: False
    then have dl: "d = DaysInMonth (m - 1) l" using d by simp
    show ?thesis
    proof (cases "m < 12")
      case True
      then have "MakeDay y (m - 1) d + 1 = MakeDay y m 1"
        using mcases l01 m unfolding dl
        by (elim disjE; simp add: c DayFromMonth_def DaysInMonth_def)
      then show ?thesis using True last by (simp add: civil_day_def l_def [symmetric])
    next
      case False
      then have m12: "m = 12" using m by simp
      have "MakeDay y 11 d + 1 = MakeDay (y + 1) 0 1"
        unfolding c1 using dl m12 by (simp add: c DayFromMonth_def DaysInMonth_def)
      then show ?thesis using m12 last by (simp add: civil_day_def l_def [symmetric])
    qed
  qed
qed


lemma day_string_civil:
  assumes "valid_ymd y m d"
  shows "day_string (civil_day y m d) = String_int y @ ''-'' @ pad2 m @ ''-'' @ pad2 d"
proof -
  have "0 \<le> m - 1" "m - 1 \<le> 11" "1 \<le> d" "d \<le> DaysInMonth (m - 1) (InLeapYear y)"
    using assms by (simp_all add: valid_ymd_def)
  then have "YearFromDay (MakeDay y (m - 1) d) = y \<and> MonthFromDay (MakeDay y (m - 1) d) = m - 1
      \<and> DateFromDay (MakeDay y (m - 1) d) = d"
    by (rule civil_MakeDay)
  then show ?thesis by (simp add: day_string_def civil_day_def)
qed




section \<open>C7: formatting a parsed date\<close>

lemma iso_prefix: "take 10 (iso_ymd y m d @ rest) = iso_ymd y m d"
  by (simp add: length_iso_ymd)

lemma regular_utc_host: "regular_host utc_host"
  unfolding utc_host_def by (rule regular_fixed_host) (simp add: msPerDay_def)

text \<open>
  C7, as stated, fails for years below 1000: \<open>formatDateLocal\<close> prints the year without
  padding, and the Date constructor reads a year from 0 to 99 as 1900 + year.
\<close>

theorem format_parse_roundtrip_fails_below_year_1000:
  "valid_ymd 999 12 31
   \<and> take 10 ''0999-12-31T23:59:59.000Z'' = iso_ymd 999 12 31
   \<and> formatDateLocal utc_host (parseDateOnly utc_host ''0999-12-31T23:59:59.000Z'') = ''999-12-31''
   \<and> formatDateLocal utc_host (parseDateOnly utc_host ''0999-12-31T23:59:59.000Z'')
       \<noteq> take 10 ''0999-12-31T23:59:59.000Z''
   \<and> valid_ymd 50 1 1
   \<and> take 10 ''0050-01-01'' = iso_ymd 50 1 1
   \<and> formatDateLocal utc_host (parseDateOnly utc_host ''0050-01-01'') = ''1950-01-01''"
proof -
  have a: "valid_ymd 999 12 31" by code_simp
  have b: "take 10 ''0999-12-31T23:59:59.000Z'' = iso_ymd 999 12 31" by code_simp
  have s: "''0999-12-31T23:59:59.000Z'' = iso_ymd 999 12 31 @ ''T23:59:59.000Z''" by code_simp
  have "formatDateLocal utc_host (parseDateOnly utc_host (iso_ymd 999 12 31 @ ''T23:59:59.000Z''))
      = day_string (civil_day 999 12 31)"
    by (simp add: parseDateOnly_midnight [OF regular_utc_host a]
        formatDateLocal_midnight [OF regular_utc_host])
  also have "\<dots> = String_int 999 @ ''-'' @ pad2 12 @ ''-'' @ pad2 31"
    by (rule day_string_civil [OF a])
  also have "\<dots> = ''999-12-31''" by code_simp
  finally have c: "formatDateLocal utc_host (parseDateOnly utc_host ''0999-12-31T23:59:59.000Z'')
      = ''999-12-31''" unfolding s [symmetric] .
  have d: "formatDateLocal utc_host (parseDateOnly utc_host ''0999-12-31T23:59:59.000Z'')
       \<noteq> take 10 ''0999-12-31T23:59:59.000Z''" unfolding c by simp
  have e: "valid_ymd 50 1 1" by code_simp
  have f: "take 10 ''0050-01-01'' = iso_ymd 50 1 1" by code_simp
  have g: "formatDateLocal utc_host (parseDateOnly utc_host ''0050-01-01'') = ''1950-01-01''"
    by code_simp
  from a b c d e f g show ?thesis by (intro conjI)
qed

text \<open>
  C7, amended.  For every string whose first ten characters are a valid zero-padded date
  of the years 1000 to 9999, on a regular host, formatting the parsed date gives back
  exactly those ten characters, whatever follows them.
\<close>

theorem format_parse_roundtrip:
  assumes "regular_host h" "valid_ymd y m d" "1000 \<le> y" "y \<le> 9999"
  shows "formatDateLocal h (parseDateOnly h (iso_ymd y m d @ rest)) = iso_ymd y m d
     \<and> take 10 (iso_ymd y m d @ rest) = iso_ymd y m d"
proof -
  have y: "100 \<le> y" using assms(3) by simp
  have "formatDateLocal h (parseDateOnly h (iso_ymd y m d @ rest))
      = day_string (civil_day y m d)"
    by (simp add: parseDateOnly_midnight [OF assms(1,2) y assms(4)]
        formatDateLocal_midnight [OF assms(1)])
  also have "\<dots> = String_int y @ ''-'' @ pad2 m @ ''-'' @ pad2 d"
    by (rule day_string_civil [OF assms(2)])
  also have "\<dots> = iso_ymd y m d"
    by (simp add: iso_ymd_def String_int_pad4 [OF assms(3,4)])
  finally have "formatDateLocal h (parseDateOnly h (iso_ymd y m d @ rest)) = iso_ymd y m d" .
  then show ?thesis using iso_prefix [of y m d rest] by blast
qed

theorem format_parse_roundtrip_witness:
  "formatDateLocal kst_host (parseDateOnly kst_host ''2026-07-04T14:30:00+09:00'') = ''2026-07-04''
   \<and> take 10 ''2026-07-04T14:30:00+09:00'' = ''2026-07-04''"
proof -
  have r: "regular_host kst_host"
    unfolding kst_host_def by (rule regular_fixed_host) (simp add: msPerDay_def)
  have v: "valid_ymd 2026 7 4" by code_simp
  have s: "iso_ymd 2026 7 4 @ ''T14:30:00+09:00'' = ''2026-07-04T14:30:00+09:00''" by code_simp
  have i: "iso_ymd 2026 7 4 = ''2026-07-04''" by code_simp
  have b: "(1000::int) \<le> 2026" "(2026::int) \<le> 9999" by simp_all
  from format_parse_roundtrip [OF r v b, of "''T14:30:00+09:00''"]
  have "formatDateLocal kst_host (parseDateOnly kst_host ''2026-07-04T14:30:00+09:00'')
      = iso_ymd 2026 7 4
     \<and> take 10 ''2026-07-04T14:30:00+09:00'' = iso_ymd 2026 7 4"
    unfolding s .
  then show ?thesis unfolding i .
qed

section \<open>Example hosts are regular\<close>

lemma regular_kst_host: "regular_host kst_host"
  unfolding kst_host_def by (rule regular_fixed_host) (simp add: msPerDay_def)

lemma us_eastern_local:
  "LocalTZA us_eastern_2026 t False
     = (if 1772938800000 \<le> t \<and> t < 1793498400000 then - 14400000 else - 18000000)"
  by (simp add: us_eastern_2026_def)

lemma us_eastern_utc:
  "LocalTZA us_eastern_2026 t True
     = (if 1772953200000 \<le> t \<and> t < 1793512800000 then - 14400000 else - 18000000)"
  by (simp add: us_eastern_2026_def)

lemma midnight_before_switch:
  fixes n :: int
  assumes "n * 86400000 < 1772938800000"
  shows "n * 86400000 \<le> 1772928000000"
proof -
  have "n < 20521" using assms by linarith
  then have "n \<le> 20520" by simp
  then show ?thesis by linarith
qed

lemma midnight_after_switch:
  fixes n :: int
  assumes "1793498400000 \<le> n * 86400000"
  shows "1793577600000 \<le> n * 86400000"
proof -
  have "20758 < n" using assms by linarith
  then have "20759 \<le> n" by simp
  then show ?thesis by linarith
qed

lemma regular_us_eastern_2026: "regular_host us_eastern_2026"
proof -
  have rt: "\<forall>n. LocalTime us_eastern_2026 (UTC us_eastern_2026 (n * msPerDay)) = n * msPerDay"
  proof
    fix n :: int
    define m where "m = n * 86400000"
    consider (dst) "1772938800000 \<le> m \<and> m < 1793498400000"
      | (before) "m < 1772938800000" | (after) "1793498400000 \<le> m" by linarith
    then have "LocalTime us_eastern_2026 (UTC us_eastern_2026 m) = m"
    proof cases
      case dst
      then show ?thesis by (simp add: LocalTime_def UTC_def us_eastern_local us_eastern_utc)
    next
      case before
      then have "m \<le> 1772928000000" unfolding m_def by (rule midnight_before_switch)
      with before show ?thesis
        by (simp add: LocalTime_def UTC_def us_eastern_local us_eastern_utc)
    next
      case after
      then have "1793577600000 \<le> m" unfolding m_def by (rule midnight_after_switch)
      with after show ?thesis
        by (simp add: LocalTime_def UTC_def us_eastern_local us_eastern_utc)
    qed
    then show "LocalTime us_eastern_2026 (UTC us_eastern_2026 (n * msPerDay)) = n * msPerDay"
      by (simp add: m_def msPerDay_def)
  qed
  have bd: "\<forall>t. \<bar>LocalTZA us_eastern_2026 t False\<bar> \<le> msPerDay"
    by (simp add: us_eastern_local msPerDay_def)
  have mono: "\<forall>n n'. n < n'
      \<longrightarrow> UTC us_eastern_2026 (n * msPerDay) < UTC us_eastern_2026 (n' * msPerDay)"
  proof (intro allI impI)
    fix n n' :: int
    assume "n < n'"
    then have "n * 86400000 + 86400000 \<le> n' * 86400000" by linarith
    moreover have "- 18000000 \<le> LocalTZA us_eastern_2026 (n * 86400000) False"
      "LocalTZA us_eastern_2026 (n * 86400000) False \<le> - 14400000"
      "- 18000000 \<le> LocalTZA us_eastern_2026 (n' * 86400000) False"
      "LocalTZA us_eastern_2026 (n' * 86400000) False \<le> - 14400000"
      by (simp_all add: us_eastern_local)
    ultimately show "UTC us_eastern_2026 (n * msPerDay) < UTC us_eastern_2026 (n' * msPerDay)"
      unfolding UTC_def msPerDay_def by simp
  qed
  from rt mono bd show ?thesis unfolding regular_host_def by blast
qed

section \<open>C3: the no-op guard\<close>

lemma truthy_iso: "truthy (Some (iso_ymd y m d @ rest))"
proof -
  have "length (iso_ymd y m d @ rest) \<noteq> 0" by (simp add: length_iso_ymd)
  then show ?thesis unfolding truthy_def by auto
qed




section \<open>C5: the explicit-today protection\<close>

lemma protected_today_iso:
  assumes "regular_host h" "valid_ymd y m d" "100 \<le> y" "y \<le> 9999"
    and "activationDate t = Some (iso_ymd y m d @ rest)"
  shows "protected_today h (formatDateLocal h (midnight h N)) t = (civil_day y m d = N)"
proof -
  have "formatDateLocal h (parseDateOnly h (the (activationDate t))) = day_string (civil_day y m d)"
    unfolding assms(5)
    by (simp add: parseDateOnly_midnight [OF assms(1-4)] formatDateLocal_midnight [OF assms(1)])
  moreover have "truthy (activationDate t)" unfolding assms(5) by (rule truthy_iso)
  moreover have "(day_string (civil_day y m d) = day_string N) = (civil_day y m d = N)"
    using day_string_inj by blast
  ultimately show ?thesis
    by (simp add: protected_today_def formatDateLocal_midnight [OF assms(1)])
qed

lemma not_truthy_not_protected: "\<not> truthy (activationDate t) \<Longrightarrow> \<not> protected_today h ts t"
  by (simp add: protected_today_def)

lemma explicit_label_only_when_protected:
  assumes "classify h thr buf tm ts t
      = Skipped ''explicitly scheduled for today (activationDate = today)''"
  shows "protected_today h ts t"
  using assms unfolding classify_cases
  by (auto simp: threshold_label_def split: if_splits)

text \<open>
  C5.  On a regular host, with today the calendar day \<open>N\<close>, an open to-do that has a
  deadline (whatever it is) and whose activation date starts with a valid zero-padded
  date is skipped with "explicitly scheduled for today (activationDate = today)" exactly
  when that date is the day \<open>N\<close>; what follows the date in the string plays no part.  An
  activation date on another day, or none, never gives that reason.
\<close>

theorem explicit_today_protection:
  assumes "regular_host h" "status t = ''open''" "truthy (dueDate t)"
  shows "(valid_ymd y m d \<and> 100 \<le> y \<and> y \<le> 9999
          \<and> activationDate t = Some (iso_ymd y m d @ rest) \<and> civil_day y m d = N
        \<longrightarrow> classify h thr buf (midnight h N) (formatDateLocal h (midnight h N)) t
            = Skipped ''explicitly scheduled for today (activationDate = today)'')
     \<and> (valid_ymd y m d \<and> 100 \<le> y \<and> y \<le> 9999
          \<and> activationDate t = Some (iso_ymd y m d @ rest) \<and> civil_day y m d \<noteq> N
        \<longrightarrow> classify h thr buf (midnight h N) (formatDateLocal h (midnight h N)) t
            \<noteq> Skipped ''explicitly scheduled for today (activationDate = today)'')
     \<and> (\<not> truthy (activationDate t)
        \<longrightarrow> classify h thr buf (midnight h N) (formatDateLocal h (midnight h N)) t
            \<noteq> Skipped ''explicitly scheduled for today (activationDate = today)'')"
proof -
  let ?ts = "formatDateLocal h (midnight h N)"
  let ?c = "classify h thr buf (midnight h N) ?ts t"
  let ?l = "''explicitly scheduled for today (activationDate = today)''"
  have p: "protected_today h ?ts t \<Longrightarrow> ?c = Skipped ?l"
    unfolding classify_cases using assms(2,3) by simp
  have q: "\<not> protected_today h ?ts t \<Longrightarrow> ?c \<noteq> Skipped ?l"
    using explicit_label_only_when_protected by blast
  have a: "valid_ymd y m d \<and> 100 \<le> y \<and> y \<le> 9999
          \<and> activationDate t = Some (iso_ymd y m d @ rest) \<and> civil_day y m d = N
        \<longrightarrow> ?c = Skipped ?l"
    using p protected_today_iso [OF assms(1), of y m d t rest N] by blast
  have b: "valid_ymd y m d \<and> 100 \<le> y \<and> y \<le> 9999
          \<and> activationDate t = Some (iso_ymd y m d @ rest) \<and> civil_day y m d \<noteq> N
        \<longrightarrow> ?c \<noteq> Skipped ?l"
    using q protected_today_iso [OF assms(1), of y m d t rest N] by blast
  have c: "\<not> truthy (activationDate t) \<longrightarrow> ?c \<noteq> Skipped ?l"
    using q not_truthy_not_protected by blast
  from a b c show ?thesis by blast
qed

theorem explicit_today_protection_witness:
  "classify kst_host 7 3 (midnight kst_host 20512) (formatDateLocal kst_host (midnight kst_host 20512))
     \<lparr>todo_id = ''5'', todo_name = ''Protected'', status = ''open'',
       dueDate = Some ''2026-06-01T00:00:00.000Z'',
       activationDate = Some ''2026-02-28T00:00:00.000Z''\<rparr>
   = Skipped ''explicitly scheduled for today (activationDate = today)''
   \<and> classify kst_host 7 3 (midnight kst_host 20512) (formatDateLocal kst_host (midnight kst_host 20512))
     \<lparr>todo_id = ''y'', todo_name = ''Yesterday activation'', status = ''open'',
       dueDate = Some ''2026-06-01T00:00:00.000Z'',
       activationDate = Some ''2026-02-27T00:00:00.000Z''\<rparr>
   \<noteq> Skipped ''explicitly scheduled for today (activationDate = today)''"
proof -
  let ?t = "\<lparr>todo_id = ''5'', todo_name = ''Protected'', status = ''open'',
       dueDate = Some ''2026-06-01T00:00:00.000Z'',
       activationDate = Some ''2026-02-28T00:00:00.000Z''\<rparr>"
  let ?u = "\<lparr>todo_id = ''y'', todo_name = ''Yesterday activation'', status = ''open'',
       dueDate = Some ''2026-06-01T00:00:00.000Z'',
       activationDate = Some ''2026-02-27T00:00:00.000Z''\<rparr>"
  have t: "status ?t = ''open''" "truthy (dueDate ?t)" by (simp_all add: truthy_def)
  have u: "status ?u = ''open''" "truthy (dueDate ?u)" by (simp_all add: truthy_def)
  have v: "valid_ymd 2026 2 28" "valid_ymd 2026 2 27" by code_simp+
  have b: "(100::int) \<le> 2026" "(2026::int) \<le> 9999" by simp_all
  have at: "activationDate ?t = Some (iso_ymd 2026 2 28 @ ''T00:00:00.000Z'')" by code_simp
  have au: "activationDate ?u = Some (iso_ymd 2026 2 27 @ ''T00:00:00.000Z'')" by code_simp
  have n: "civil_day 2026 2 28 = 20512" "civil_day 2026 2 27 \<noteq> 20512" by code_simp+
  from explicit_today_protection [OF regular_kst_host t, of 2026 2 28 "''T00:00:00.000Z''" 20512 7 3,
      THEN conjunct1] v(1) b at n(1)
  have 1: "classify kst_host 7 3 (midnight kst_host 20512)
      (formatDateLocal kst_host (midnight kst_host 20512)) ?t
      = Skipped ''explicitly scheduled for today (activationDate = today)''" by blast
  from explicit_today_protection [OF regular_kst_host u, of 2026 2 27 "''T00:00:00.000Z''" 20512 7 3,
      THEN conjunct2, THEN conjunct1] v(2) b au n(2)
  have 2: "classify kst_host 7 3 (midnight kst_host 20512)
      (formatDateLocal kst_host (midnight kst_host 20512)) ?u
      \<noteq> Skipped ''explicitly scheduled for today (activationDate = today)''" by blast
  from 1 2 show ?thesis by blast
qed

section \<open>C2: the threshold filter\<close>





section \<open>C6: day counts across a change of offset\<close>

text \<open>
  C6.  \<open>daysBetween\<close> is the floor of a difference of local midnights divided by 24
  hours.  On a host that observes daylight saving the midnights of 28 February and 10
  March 2026 are 239 hours apart, and the result is 9 for two days that are 10 calendar
  days apart (8 to 9 March gives 0).  With equal offsets at both midnights the count is
  exact (\<open>daysBetween_same_offset\<close>).
\<close>

theorem daysBetween_loses_a_day_across_dst:
  "daysBetween (newDate us_eastern_2026 2026 1 28) (newDate us_eastern_2026 2026 2 10) = Some 9
   \<and> civil_day 2026 3 10 - civil_day 2026 2 28 = 10
   \<and> formatDateLocal us_eastern_2026 (newDate us_eastern_2026 2026 1 28) = ''2026-02-28''
   \<and> formatDateLocal us_eastern_2026 (newDate us_eastern_2026 2026 2 10) = ''2026-03-10''
   \<and> daysBetween (newDate us_eastern_2026 2026 2 8) (newDate us_eastern_2026 2026 2 9) = Some 0
   \<and> daysBetween (newDate kst_host 2026 1 28) (newDate kst_host 2026 2 10) = Some 10"
proof -
  have a: "daysBetween (newDate us_eastern_2026 2026 1 28) (newDate us_eastern_2026 2026 2 10)
      = Some 9" by code_simp
  have b: "civil_day 2026 3 10 - civil_day 2026 2 28 = 10" by code_simp
  have c: "formatDateLocal us_eastern_2026 (newDate us_eastern_2026 2026 1 28) = ''2026-02-28''"
    by code_simp
  have d: "formatDateLocal us_eastern_2026 (newDate us_eastern_2026 2026 2 10) = ''2026-03-10''"
    by code_simp
  have e: "daysBetween (newDate us_eastern_2026 2026 2 8) (newDate us_eastern_2026 2026 2 9)
      = Some 0" by code_simp
  have f: "daysBetween (newDate kst_host 2026 1 28) (newDate kst_host 2026 2 10) = Some 10"
    by code_simp
  from a b c d e f show ?thesis by (intro conjI)
qed

end
